theory Spec2Isabelle
  imports Main "HOL-Library.Sublist"
begin

section \<open>xds-exec: a wrapper on the exec command of the X(cross) Development System\<close>

text \<open>
  The development embeds \<^verbatim>\<open>main.go\<close>: the scan of the command line in \<^verbatim>\<open>main\<close> that
  splits the wrapper's options from the native command and sources the config file, and the
  single action \<^verbatim>\<open>app.Action\<close> that talks to the agent. Go strings are byte strings
  (\<^typ>\<open>string\<close>), Go's \<^verbatim>\<open>int\<close> exit code is an \<^typ>\<open>int\<close> (no arithmetic is done on it),
  a \<^verbatim>\<open>panic\<close> and a call of \<^verbatim>\<open>os.Exit\<close> are values of a result type. Every call that
  leaves the program (the file system, the HTTP client, the socket, \<^verbatim>\<open>os.Getwd\<close>, the log
  level parser) returns what a record of the outside world says it returns, so the theorems
  hold for every behaviour of these calls. The logger's own output is not modelled.
\<close>

subsection \<open>Constants of the application\<close>

definition AppName :: string where
  "AppName = ''xds-exec''"

definition AppNativeName :: string where
  "AppNativeName = ''exec''"

definition NL :: string where
  "NL = [CHR 0x0A]"

definition TAB :: string where
  "TAB = [CHR 0x09]"

subsection \<open>The functions of Go's library that the program calls on strings\<close>

text \<open>\<^verbatim>\<open>strings.HasPrefix(s, p)\<close>.\<close>

definition strings_HasPrefix :: "string \<Rightarrow> string \<Rightarrow> bool" where
  "strings_HasPrefix s p = prefix p s"

text \<open>\<^verbatim>\<open>strings.Index(s, sep)\<close>: the position of the first instance of \<open>sep\<close> in \<open>s\<close>;
  \<open>None\<close> stands for Go's \<open>-1\<close>.\<close>

fun strings_Index :: "string \<Rightarrow> string \<Rightarrow> nat option" where
  "strings_Index [] sep = (if sep = [] then Some 0 else None)"
| "strings_Index (c # cs) sep =
     (if prefix sep (c # cs) then Some 0 else map_option Suc (strings_Index cs sep))"

text \<open>\<^verbatim>\<open>strings.LastIndex(s, sep)\<close>: the position of the last instance.\<close>

definition strings_LastIndex :: "string \<Rightarrow> string \<Rightarrow> nat option" where
  "strings_LastIndex s sep =
     (case strings_Index (rev s) (rev sep) of
        None \<Rightarrow> None
      | Some m \<Rightarrow> Some (length s - m - length sep))"

text \<open>\<^verbatim>\<open>strings.SplitAfter(s, sep)\<close>: \<open>s\<close> cut after each instance of \<open>sep\<close>, the instances
  found from left to right without overlap (\<^verbatim>\<open>genSplit\<close> with \<open>n < 0\<close>). With an empty
  separator Go cuts after each UTF-8 sequence; on byte strings that is after each byte.\<close>

function strings_SplitAfter :: "string \<Rightarrow> string \<Rightarrow> string list" where
  "strings_SplitAfter s sep =
     (if sep = [] then map (\<lambda>c. [c]) s
      else case strings_Index s sep of
             None \<Rightarrow> [s]
           | Some m \<Rightarrow> take (m + length sep) s # strings_SplitAfter (drop (m + length sep) s) sep)"
  by pat_completeness auto
termination
proof (relation "measure (\<lambda>(s, sep). length s)")
  show "wf (measure (\<lambda>(s, sep). length s))" by simp
next
  fix s sep :: string and m :: nat
  assume sep: "sep \<noteq> []" and idx: "strings_Index s sep = Some m"
  have "strings_Index t sep = Some k \<Longrightarrow> k + length sep \<le> length t" for t k
  proof (induction t arbitrary: k)
    case Nil
    then show ?case by (simp split: if_splits)
  next
    case (Cons c cs)
    show ?case
    proof (cases "prefix sep (c # cs)")
      case True
      then have "length sep \<le> length (c # cs)" by (rule prefix_length_le)
      with True Cons.prems show ?thesis by simp
    next
      case False
      with Cons.prems obtain j where "strings_Index cs sep = Some j" "k = Suc j"
        by auto
      with Cons.IH show ?thesis by fastforce
    qed
  qed
  with idx have "m + length sep \<le> length s" by blast
  moreover from sep have "0 < length sep" by simp
  ultimately have "length s - (m + length sep) < length s" by arith
  then show "((drop (m + length sep) s, sep), (s, sep)) \<in> measure (\<lambda>(s, sep). length s)"
    by simp
qed

declare strings_SplitAfter.simps [simp del]

text \<open>\<^verbatim>\<open>strings.Trim(s, cutset)\<close>: \<open>s\<close> without its leading and trailing bytes of the cutset.\<close>

definition strings_Trim :: "string \<Rightarrow> string \<Rightarrow> string" where
  "strings_Trim s cutset =
     rev (dropWhile (\<lambda>c. c \<in> set cutset) (rev (dropWhile (\<lambda>c. c \<in> set cutset) s)))"

text \<open>\<^verbatim>\<open>filepath.Base(path)\<close> on Unix: the last element of the path, trailing slashes removed.\<close>

definition filepath_Base :: "string \<Rightarrow> string" where
  "filepath_Base path =
     (if path = [] then ''.''
      else let p = rev (dropWhile (\<lambda>c. c = CHR ''/'') (rev path));
               b = rev (takeWhile (\<lambda>c. c \<noteq> CHR ''/'') (rev p))
           in if b = [] then ''/'' else b)"

text \<open>\<^verbatim>\<open>regexp.MatchString("Get http.?://", s)\<close>: somewhere in \<open>s\<close> stands \<^verbatim>\<open>Get http\<close>, then
  at most one character other than a newline, then \<^verbatim>\<open>://\<close>. (Go's \<^verbatim>\<open>.\<close> takes one rune;
  here it takes one byte.)\<close>

definition matchHere :: "string \<Rightarrow> bool" where
  "matchHere t =
     (prefix ''Get http'' t \<and>
      (let r = drop 8 t
       in prefix ''://'' r \<or>
          (case r of [] \<Rightarrow> False | c # r' \<Rightarrow> c \<noteq> CHR 0x0A \<and> prefix ''://'' r')))"

fun regexp_MatchString :: "string \<Rightarrow> bool" where
  "regexp_MatchString [] = matchHere []"
| "regexp_MatchString (c # cs) = (matchHere (c # cs) \<or> regexp_MatchString cs)"

text \<open>Go's \<^verbatim>\<open>copy(dst, src)\<close> on slices: the first \<open>min (len dst) (len src)\<close> elements of
  \<open>dst\<close> are overwritten, its length stays.\<close>

definition copy_slice :: "'a list \<Rightarrow> 'a list \<Rightarrow> 'a list" where
  "copy_slice dst src = take (length dst) src @ drop (length src) dst"

subsection \<open>The command line: options of the wrapper, native command, config file\<close>

text \<open>\<^verbatim>\<open>exitError(code, f)\<close> ends the process with the code after printing the message,
  kept here as the format string \<open>f\<close> that the call gives; a run-time panic of Go ends it
  too.\<close>

datatype abort = Exited int string | Panicked string

text \<open>A config file as the two calls of \<^verbatim>\<open>godotenv\<close> see it: \<^verbatim>\<open>exists\<close> says whether it
  is there, then \<^verbatim>\<open>Overload\<close> and \<^verbatim>\<open>Read\<close> each give the pairs they parsed or fail.\<close>

datatype confFile =
  Missing
| Present "(string \<times> string) list option" "(string \<times> string) list option"

text \<open>\<^verbatim>\<open>godotenv.Overload\<close> sets every variable of the file in the process environment,
  over the value that is there.\<close>

definition godotenv_Overload ::
  "(string \<rightharpoonup> string) \<Rightarrow> (string \<times> string) list \<Rightarrow> (string \<rightharpoonup> string)" where
  "godotenv_Overload env kvs = fold (\<lambda>(k, v) e. e(k \<mapsto> v)) kvs env"

record splitState =
  confFile :: string
  penv :: "string \<rightharpoonup> string"
  envMap :: "(string \<times> string) list"
  args :: "string list"
  argsCommand :: "string list"
  found :: bool

text \<open>The body of \<^verbatim>\<open>if a == "-c" || a == "--config"\<close> at index \<open>idx\<close> of \<^verbatim>\<open>os.Args[1:]\<close>.\<close>

definition loadConf ::
  "(string \<Rightarrow> confFile) \<Rightarrow> string list \<Rightarrow> nat \<Rightarrow> splitState \<Rightarrow> abort + splitState" where
  "loadConf fs osArgs idx st =
     (if idx + 2 < length osArgs then
        let cf = osArgs ! (idx + 2); st1 = st\<lparr>confFile := cf\<rparr>
        in if cf \<noteq> [] then
             (case fs cf of
                Missing \<Rightarrow> Inl (Exited 1 ''Error env config file not found'')
              | Present ov rd \<Rightarrow>
                  (case ov of
                     None \<Rightarrow> Inl (Exited 1 (''Error loading env config file '' @ cf))
                   | Some kvs \<Rightarrow>
                       (case rd of
                          None \<Rightarrow> Inl (Exited 1 (''Error reading env config file '' @ cf))
                        | Some m \<Rightarrow>
                            Inr (st1\<lparr>penv := godotenv_Overload (penv st1) kvs, envMap := m\<rparr>))))
           else Inr st1
      else Inl (Panicked ''index out of range''))"

text \<open>The loop \<^verbatim>\<open>for idx, a := range os.Args[1:]\<close>, left at the first \<^verbatim>\<open>--\<close>.\<close>

fun scanArgs ::
  "(string \<Rightarrow> confFile) \<Rightarrow> string list \<Rightarrow> (nat \<times> string) list \<Rightarrow> splitState
     \<Rightarrow> abort + splitState" where
  "scanArgs fs osArgs [] st = Inr st"
| "scanArgs fs osArgs ((idx, a) # rest) st =
     (case (if a = ''-c'' \<or> a = ''--config'' then loadConf fs osArgs idx st else Inr st) of
        Inl e \<Rightarrow> Inl e
      | Inr st1 \<Rightarrow>
          if a = ''--'' then
            Inr (st1\<lparr>args := copy_slice (args st1) (take (idx + 1) osArgs),
                     argsCommand := copy_slice (argsCommand st1) (drop (idx + 2) osArgs),
                     found := True\<rparr>)
          else scanArgs fs osArgs rest st1)"

text \<open>\<^verbatim>\<open>main\<close> up to \<^verbatim>\<open>app.Run(args)\<close>: both slices are made with the length of
  \<^verbatim>\<open>os.Args\<close> and filled by \<^verbatim>\<open>copy\<close>.\<close>

definition mainSplit ::
  "(string \<Rightarrow> confFile) \<Rightarrow> (string \<rightharpoonup> string) \<Rightarrow> string list \<Rightarrow> abort + splitState" where
  "mainSplit fs env osArgs =
     (case osArgs of
        [] \<Rightarrow> Inl (Panicked ''index out of range'')
      | a0 # rest \<Rightarrow>
          let n = length osArgs;
              st0 = \<lparr>confFile = [], penv = env, envMap = [],
                     args = (replicate n [])[0 := a0], argsCommand = replicate n [],
                     found = False\<rparr>
          in if filepath_Base a0 \<noteq> AppNativeName then
               (case scanArgs fs osArgs (enumerate 0 rest) st0 of
                  Inl e \<Rightarrow> Inl e
                | Inr st \<Rightarrow>
                    Inr (if \<not> found st then st\<lparr>args := copy_slice (args st) osArgs\<rparr> else st))
             else Inr (st0\<lparr>argsCommand := copy_slice (argsCommand st0) osArgs\<rparr>))"

subsection \<open>The flags of the application\<close>

text \<open>\<^verbatim>\<open>app.Flags\<close>: a string flag with its name, environment variable and default value,
  a boolean flag with its name and environment variable.\<close>

datatype flag = StringFlag string string string | BoolFlag string string

definition appFlags :: "flag list" where
  "appFlags =
     [StringFlag ''id'' ''XDS_PROJECT_ID'' [],
      StringFlag ''config, c'' ''XDS_CONFIG'' [],
      BoolFlag ''list, ls'' [],
      StringFlag ''log, l'' ''XDS_LOGLEVEL'' ''error'',
      StringFlag ''rpath'' ''XDS_RPATH'' [],
      StringFlag ''sdkid'' ''XDS_SDK_ID'' [],
      BoolFlag ''timestamp, ts'' ''XDS_TIMESTAMP'',
      StringFlag ''url'' ''XDS_AGENT_URL'' ''localhost:8000'']"

fun stringFlags :: "flag list \<Rightarrow> (string \<times> string \<times> string) list" where
  "stringFlags [] = []"
| "stringFlags (StringFlag n e v # fs) = (n, e, v) # stringFlags fs"
| "stringFlags (BoolFlag n e # fs) = stringFlags fs"

text \<open>Modelled from the spec: the lookup of a string flag's value, which the command-line
  library does and the source only declares. A non-empty value given with the flag is
  taken; otherwise the flag's environment variable is read and taken when non-empty;
  otherwise the built-in default.\<close>

definition flagValue :: "(string \<rightharpoonup> string) \<Rightarrow> string \<Rightarrow> string \<Rightarrow> string \<Rightarrow> string" where
  "flagValue env given envVar dflt =
     (if given \<noteq> [] then given
      else case env envVar of
             None \<Rightarrow> dflt
           | Some v \<Rightarrow> if v \<noteq> [] then v else dflt)"

subsection \<open>The data exchanged with the agent\<close>

text \<open>The fields of \<^verbatim>\<open>xaapiv1.ProjectConfig\<close> and \<^verbatim>\<open>xaapiv1.SDK\<close> that the program reads,
  and \<^verbatim>\<open>xaapiv1.ExecArgs\<close>, the body of the exec request.\<close>

record projectConfig =
  P_ID :: string
  P_Label :: string
  P_ClientPath :: string
  P_DefaultSdk :: string

record sdk =
  S_ID :: string
  S_Name :: string

record execArgs =
  ID :: string
  SdkID :: string
  Cmd :: string
  Args :: "string list"
  Env :: "string list"
  RPath :: string
  CmdTimeout :: int

text \<open>The four signals of the socket: \<^verbatim>\<open>error\<close>, \<^verbatim>\<open>disconnection\<close>, the output event
  (timestamp, stdout, stderr) and the exit event (error, code). A Go \<^verbatim>\<open>error\<close> that may be
  \<^verbatim>\<open>nil\<close> is a \<^typ>\<open>string option\<close>.\<close>

datatype event =
  ErrorEvent string
| Disconnection "string option"
| ExecOutEvent string string string
| ExecExitEvent "string option" int

text \<open>The variables that the flags fill, read by the action.\<close>

record config =
  uri :: string
  prjID :: string
  rPath :: string
  logLevel :: string
  sdkid :: string
  withTimestamp :: bool
  listProject :: bool

text \<open>What the outside answers in one run: whether \<^verbatim>\<open>logrus.ParseLevel\<close> fails, the error
  of \<^verbatim>\<open>HTTPNewClient\<close>, of the \<^verbatim>\<open>GET\<close> of \<^verbatim>\<open>/version\<close>, the answer to \<^verbatim>\<open>/projects\<close> and
  to \<^verbatim>\<open>/servers/0/sdks\<close> (the error of the \<^verbatim>\<open>GET\<close>, or the slice after
  \<^verbatim>\<open>json.Unmarshal\<close> with whether it returned an error), the error of the socket's
  \<^verbatim>\<open>NewClient\<close>, the result of \<^verbatim>\<open>os.Getwd\<close>, the error of the \<^verbatim>\<open>POST\<close>, the signals
  the socket delivers while the action waits, in their order of arrival, and the text that
  the verb \<^verbatim>\<open>%q\<close> of \<^verbatim>\<open>fmt.Sprintf\<close> gives for a string (Go's quoting rests on the tables of
  Unicode, so it is taken as it is).\<close>

record world =
  parseLevelFails :: bool
  httpNewClient :: "string option"
  getVersion :: "string option"
  getProjects :: "string + (projectConfig list \<times> bool)"
  getSdks :: "string + (sdk list \<times> bool)"
  ioNewClient :: "string option"
  getwd :: "string option"
  httpPost :: "string option"
  events :: "event list"
  fmtQuote :: "string \<Rightarrow> string"

text \<open>What the action did: the writes to the standard output and to the standard error
  stream, in the order in which they are made, the URL given to the HTTP client and to the
  socket client, the paths of the \<^verbatim>\<open>GET\<close> requests, the \<^verbatim>\<open>POST\<close> requests.\<close>

datatype stream = Stdout | Stderr

record trace =
  written :: "(stream \<times> string) list"
  httpURL :: "string list"
  ioURL :: "string list"
  gets :: "string list"
  posted :: "(string \<times> execArgs) list"

definition emptyTrace :: trace where
  "emptyTrace = \<lparr>written = [], httpURL = [], ioURL = [], gets = [], posted = []\<rparr>"

text \<open>How the action ends: it returns \<^verbatim>\<open>cli.NewExitError(message, code)\<close>, it panics, or
  it waits on the exit channel for ever.\<close>

datatype outcome = ExitError string int | Panic string | Blocked

subsection \<open>The action\<close>

definition execCommand :: string where
  "execCommand = ''/exec''"

definition ccHelp :: string where
  "ccHelp = [CHR 0x27] @ ''mkdir build; cd build; cmake ..'' @ [CHR 0x27]"

text \<open>\<^verbatim>\<open>baseURL\<close>, the URL of the HTTP and of the socket client.\<close>

definition baseURL :: "string \<Rightarrow> string" where
  "baseURL u = (if \<not> strings_HasPrefix u ''http://'' then ''http://'' @ u else u)"

text \<open>The error returned when \<^verbatim>\<open>HTTPNewClient\<close> fails.\<close>

definition connectError :: "string \<Rightarrow> string \<Rightarrow> outcome" where
  "connectError url errmsg =
     (if regexp_MatchString errmsg then
        (case strings_LastIndex errmsg '':'' of
           None \<Rightarrow> Panic ''slice bounds out of range''
         | Some i \<Rightarrow> ExitError (''Cannot connection to '' @ url @ drop i errmsg) 1)
      else ExitError errmsg 1)"

text \<open>\<^verbatim>\<open>outFunc\<close>, called for each output event.\<close>

definition outFunc :: "bool \<Rightarrow> string \<Rightarrow> string \<Rightarrow> string \<Rightarrow> trace \<Rightarrow> trace" where
  "outFunc withTs timestamp out err tr =
     (let tm = (if withTs then timestamp @ ''| '' else []);
          tr1 = (if out \<noteq> [] then tr\<lparr>written := written tr @ [(Stdout, tm @ out)]\<rparr> else tr)
      in if err \<noteq> [] then tr1\<lparr>written := written tr1 @ [(Stderr, tm @ err)]\<rparr> else tr1)"

text \<open>The handlers of the socket run on the signals in their order until one of them puts
  a result on \<^verbatim>\<open>exitChan\<close>, which the \<^verbatim>\<open>select\<close> of the action takes; with no such signal
  the action never returns (\<open>None\<close>).\<close>

fun waitExit :: "bool \<Rightarrow> event list \<Rightarrow> trace \<Rightarrow> trace \<times> (string option \<times> int) option" where
  "waitExit withTs [] tr = (tr, None)"
| "waitExit withTs (ErrorEvent m # es) tr =
     waitExit withTs es (tr\<lparr>written := written tr @ [(Stdout, ''ERROR:  '' @ m @ NL)]\<rparr>)"
| "waitExit withTs (Disconnection e # es) tr = (tr, Some (e, 2))"
| "waitExit withTs (ExecOutEvent t out err # es) tr = waitExit withTs es (outFunc withTs t out err tr)"
| "waitExit withTs (ExecExitEvent e code # es) tr = (tr, Some (e, code))"

text \<open>The \<^verbatim>\<open>select\<close> on \<^verbatim>\<open>exitChan\<close>: the error's text, or the empty string, with the code.\<close>

definition exitOutcome :: "string option \<times> int \<Rightarrow> outcome" where
  "exitOutcome res = ExitError (case fst res of None \<Rightarrow> [] | Some e \<Rightarrow> e) (snd res)"

text \<open>The relative path set from the working directory and the project's client path.\<close>

definition autoRPath :: "string \<Rightarrow> string \<Rightarrow> string option" where
  "autoRPath cwd clientPath =
     (let fldRp = (if \<not> strings_HasPrefix clientPath ''/'' then ''/'' @ clientPath else clientPath);
          sp = strings_SplitAfter cwd fldRp
      in if length sp = 2 then Some (strings_Trim (sp ! 1) ''/'') else None)"

definition setupRPath :: "config \<Rightarrow> world \<Rightarrow> projectConfig option \<Rightarrow> string" where
  "setupRPath cfg w project =
     (case project of
        None \<Rightarrow> rPath cfg
      | Some prj \<Rightarrow>
          if rPath cfg = [] then
            (case getwd w of
               None \<Rightarrow> rPath cfg
             | Some cwd \<Rightarrow>
                 (case autoRPath cwd (P_ClientPath prj) of
                    None \<Rightarrow> rPath cfg
                  | Some r \<Rightarrow> r))
          else rPath cfg)"

text \<open>The action from \<^verbatim>\<open>Create io Websocket client\<close> on. (\<^verbatim>\<open>json.Marshal\<close> of the request
  cannot fail: it holds strings and an integer.)\<close>

definition execFlow ::
  "config \<Rightarrow> world \<Rightarrow> string list \<Rightarrow> (string \<times> string) list \<Rightarrow> projectConfig list \<Rightarrow> trace
     \<Rightarrow> outcome \<times> trace" where
  "execFlow cfg w argsCmd envm projects tr =
     (let tr1 = tr\<lparr>ioURL := ioURL tr @ [baseURL (uri cfg)]\<rparr>
      in case ioNewClient w of
           Some e \<Rightarrow> (ExitError (''IO.socket connection error: '' @ e) 1, tr1)
         | None \<Rightarrow>
             let project = find (\<lambda>f. P_ID f = prjID cfg) projects;
                 rp = setupRPath cfg w project;
                 env = map (\<lambda>(k, v). k @ ''='' @ v) envm
             in case argsCmd of
                  [] \<Rightarrow> (Panic ''index out of range'', tr1)
                | c # as \<Rightarrow>
                    let body = \<lparr>ID = prjID cfg, SdkID = sdkid cfg, Cmd = strings_Trim c '' '',
                                Args = as, Env = env, RPath = rp, CmdTimeout = 60\<rparr>;
                        tr2 = tr1\<lparr>posted := posted tr1 @ [(execCommand, body)]\<rparr>
                    in case httpPost w of
                         Some e \<Rightarrow> (ExitError e 1, tr2)
                       | None \<Rightarrow>
                           (case waitExit (withTimestamp cfg) (events w) tr2 of
                              (tr3, None) \<Rightarrow> (Blocked, tr3)
                            | (tr3, Some res) \<Rightarrow> (exitOutcome res, tr3)))"

text \<open>The text of the help: the lines of the projects, of the SDKs, and the example, in
  which \<open>q\<close> is the quoting of the verb \<^verbatim>\<open>%q\<close>.\<close>

definition projectLine :: "projectConfig \<Rightarrow> string" where
  "projectLine f =
     NL @ ''  '' @ P_ID f @ TAB @ '' | '' @ P_Label f @
     (if P_DefaultSdk f \<noteq> [] then TAB @ ''(default SDK: '' @ P_DefaultSdk f @ '')'' else [])"

definition sdkLine :: "sdk \<Rightarrow> string" where
  "sdkLine s = ''  '' @ S_ID s @ TAB @ '' | '' @ S_Name s @ NL"

definition exampleText :: "(string \<Rightarrow> string) \<Rightarrow> string \<Rightarrow> string \<Rightarrow> string" where
  "exampleText q pid sid =
     NL @ ''For example: '' @ NL @
     ''  '' @ AppName @ '' --id '' @ q pid @ '' --sdkid '' @ q sid @ '' -- '' @ ccHelp @ NL @
     '' or'' @ NL @
     ''  XDS_PROJECT_ID='' @ q pid @ '' XDS_SDK_ID='' @ q sid @ ''  '' @ AppNativeName @
     '' '' @ ccHelp @ NL"

definition projectsText :: "projectConfig list \<Rightarrow> string" where
  "projectsText projects =
     ''List of existing projects (use: export XDS_PROJECT_ID=<< ID >>): '' @ NL @
     ''  ID'' @ TAB @ TAB @ TAB @ TAB @ '' | Label'' @ concat (map projectLine projects) @ NL"

definition sdksText :: "sdk list \<Rightarrow> string" where
  "sdksText sdks =
     NL @ ''List of installed cross SDKs (use: export XDS_SDK_ID=<< ID >>): '' @ NL @
     ''  ID'' @ TAB @ TAB @ TAB @ TAB @ TAB @ '' | NAME'' @ NL @ concat (map sdkLine sdks)"

text \<open>The message built under \<^verbatim>\<open>if prjID == "" || listProject\<close> once the SDKs are there.\<close>

definition helpMsg ::
  "(string \<Rightarrow> string) \<Rightarrow> bool \<Rightarrow> projectConfig list \<Rightarrow> bool \<Rightarrow> sdk list \<Rightarrow> bool \<Rightarrow> string" where
  "helpMsg q listing projects errPrj sdks errSdk =
     (if \<not> listing then ''XDS_PROJECT_ID environment variable must be set !'' @ NL else []) @
     (if \<not> errPrj then projectsText projects else []) @
     (if \<not> errSdk then sdksText sdks else []) @
     (case (projects, sdks) of
        (p # _, s # _) \<Rightarrow> exampleText q (P_ID p) (S_ID s)
      | _ \<Rightarrow> [])"

definition helpFlow :: "config \<Rightarrow> world \<Rightarrow> projectConfig list \<Rightarrow> bool \<Rightarrow> trace \<Rightarrow> outcome \<times> trace" where
  "helpFlow cfg w projects errPrj tr =
     (let exc = (if \<not> listProject cfg then 1 else 0);
          tr1 = tr\<lparr>gets := gets tr @ [''/servers/0/sdks'']\<rparr>
      in case getSdks w of
           Inl e \<Rightarrow> (ExitError e 1, tr1)
         | Inr (sdks, errSdk) \<Rightarrow>
             (ExitError (helpMsg (fmtQuote w) (listProject cfg) projects errPrj sdks errSdk) exc, tr1))"

text \<open>\<^verbatim>\<open>app.Action\<close>, with the native command and the variables of the config file that
  \<^verbatim>\<open>main\<close> has set, the variables in the order in which the \<^verbatim>\<open>range\<close> over the map visits
  them (Go does not fix it).\<close>

definition appAction ::
  "config \<Rightarrow> world \<Rightarrow> string list \<Rightarrow> (string \<times> string) list \<Rightarrow> outcome \<times> trace" where
  "appAction cfg w argsCmd envm =
     (if parseLevelFails w then
        (ExitError (''Invalid log level : \"'' @ logLevel cfg @ ''\"'' @ NL) 1, emptyTrace)
      else
        let tr1 = emptyTrace\<lparr>httpURL := [baseURL (uri cfg)]\<rparr>
        in case httpNewClient w of
             Some e \<Rightarrow> (connectError (baseURL (uri cfg)) e, tr1)
           | None \<Rightarrow>
               let tr2 = tr1\<lparr>gets := [''/version'']\<rparr>
               in case getVersion w of
                    Some e \<Rightarrow> (ExitError e 1, tr2)
                  | None \<Rightarrow>
                      let tr3 = tr2\<lparr>gets := gets tr2 @ [''/projects'']\<rparr>
                      in case getProjects w of
                           Inl e \<Rightarrow> (ExitError e 1, tr3)
                         | Inr (projects, errMar) \<Rightarrow>
                             if prjID cfg = [] \<or> listProject cfg
                             then helpFlow cfg w projects errMar tr3
                             else execFlow cfg w argsCmd envm projects tr3)"

subsection \<open>Terms of the statements\<close>

text \<open>The signals that put a result on \<^verbatim>\<open>exitChan\<close>.\<close>

fun isTerminal :: "event \<Rightarrow> bool" where
  "isTerminal (Disconnection e) = True"
| "isTerminal (ExecExitEvent e c) = True"
| "isTerminal (ErrorEvent m) = False"
| "isTerminal (ExecOutEvent t out err) = False"

text \<open>The runs in which the action gets as far as waiting on \<^verbatim>\<open>exitChan\<close>: no call before
  fails, a project is asked for and no listing, and there is a native command.\<close>

definition reachesStreaming :: "config \<Rightarrow> world \<Rightarrow> string list \<Rightarrow> bool" where
  "reachesStreaming cfg w argsCmd =
     (\<not> parseLevelFails w \<and> httpNewClient w = None \<and> getVersion w = None \<and>
      (case getProjects w of Inl e \<Rightarrow> False | Inr r \<Rightarrow> True) \<and>
      prjID cfg \<noteq> [] \<and> \<not> listProject cfg \<and> ioNewClient w = None \<and> argsCmd \<noteq> [] \<and>
      httpPost w = None)"

text \<open>The project's client path as the action compares it with the working directory:
  made to begin with a slash.\<close>

definition normRoot :: "string \<Rightarrow> string" where
  "normRoot cp = (if strings_HasPrefix cp ''/'' then cp else ''/'' @ cp)"

text \<open>The runs in which the action gets as far as the check of the project ID: the log
  level parses, the HTTP client connects and the agent answers \<^verbatim>\<open>/version\<close>.\<close>

definition agentAlive :: "world \<Rightarrow> bool" where
  "agentAlive w = (\<not> parseLevelFails w \<and> httpNewClient w = None \<and> getVersion w = None)"

text \<open>What one output event is to write, in the words of the specification: each chunk
  that is not empty, to its own stream, behind the timestamp when the flag is set. It is
  compared with \<^verbatim>\<open>outFunc\<close> below.\<close>

definition chunkWrites :: "bool \<Rightarrow> string \<times> string \<times> string \<Rightarrow> (stream \<times> string) list" where
  "chunkWrites withTs c =
     (case c of (t, out, err) \<Rightarrow>
        (if out \<noteq> [] then [(Stdout, (if withTs then t @ ''| '' else []) @ out)] else []) @
        (if err \<noteq> [] then [(Stderr, (if withTs then t @ ''| '' else []) @ err)] else []))"

text \<open>What the handlers write for one signal: the chunks of an output event, a line for an
  error signal (\<^verbatim>\<open>fmt.Println("ERROR: ", err.Error())\<close>), nothing for the two signals that
  end the wait.\<close>

definition signalWrites :: "bool \<Rightarrow> event \<Rightarrow> (stream \<times> string) list" where
  "signalWrites withTs e =
     (case e of
        ErrorEvent m \<Rightarrow> [(Stdout, ''ERROR:  '' @ m @ NL)]
      | Disconnection x \<Rightarrow> []
      | ExecOutEvent t out err \<Rightarrow> chunkWrites withTs (t, out, err)
      | ExecExitEvent x c \<Rightarrow> [])"

text \<open>The precedence in the words of the specification: of the sources of a parameter, in
  their order, the first that gives a value that is not empty; the built-in default when
  none does. A source that does not define the parameter is \<open>None\<close>.\<close>

fun firstNonEmpty :: "string option list \<Rightarrow> string \<Rightarrow> string" where
  "firstNonEmpty [] dflt = dflt"
| "firstNonEmpty (None # srcs) dflt = firstNonEmpty srcs dflt"
| "firstNonEmpty (Some v # srcs) dflt = (if v \<noteq> [] then v else firstNonEmpty srcs dflt)"

text \<open>A run for the examples: one project, one SDK, two output events and the exit event.
  The identifiers of the examples are letters and digits, which \<^verbatim>\<open>%q\<close> puts between double
  quotes as they are.\<close>

definition quotePlain :: "string \<Rightarrow> string" where
  "quotePlain s = ''\"'' @ s @ ''\"''"

definition sampleProject :: projectConfig where
  "sampleProject = \<lparr>P_ID = ''p1'', P_Label = ''L1'', P_ClientPath = ''proj'', P_DefaultSdk = []\<rparr>"

definition sampleSdk :: sdk where
  "sampleSdk = \<lparr>S_ID = ''s1'', S_Name = ''N1''\<rparr>"

definition sampleConfig :: config where
  "sampleConfig = \<lparr>uri = ''localhost:8000'', prjID = ''p1'', rPath = [], logLevel = ''error'',
     sdkid = ''s1'', withTimestamp = False, listProject = False\<rparr>"

definition sampleWorld :: world where
  "sampleWorld = \<lparr>parseLevelFails = False, httpNewClient = None, getVersion = None,
     getProjects = Inr ([sampleProject], False), getSdks = Inr ([sampleSdk], False),
     ioNewClient = None, getwd = Some ''/home/u/proj/src'', httpPost = None,
     events = [ExecOutEvent ''t1'' ''out1'' [], ExecOutEvent ''t2'' [] ''err1'',
               ExecExitEvent None 0],
     fmtQuote = quotePlain\<rparr>"

text \<open>Variants of the run: no project ID given, listing asked for, and an agent whose
  answer to a listing call fails or does not decode.\<close>

definition noProjectConfig :: config where
  "noProjectConfig = sampleConfig\<lparr>prjID := []\<rparr>"

definition listingConfig :: config where
  "listingConfig = sampleConfig\<lparr>listProject := True\<rparr>"

definition sdksFailWorld :: world where
  "sdksFailWorld = sampleWorld\<lparr>getSdks := Inl ''Get /servers/0/sdks: 500''\<rparr>"

definition projectsFailWorld :: world where
  "projectsFailWorld = sampleWorld\<lparr>getProjects := Inl ''Get /projects: 500''\<rparr>"

definition projectsMalformedWorld :: world where
  "projectsMalformedWorld = sampleWorld\<lparr>getProjects := Inr ([], True)\<rparr>"

definition sdksMalformedWorld :: world where
  "sdksMalformedWorld = sampleWorld\<lparr>getSdks := Inr ([], True)\<rparr>"

text \<open>An agent whose list of projects decodes with an error after its first element; a
  session with timestamps whose socket gives an error signal, then output, and no signal
  that ends it.\<close>

definition projectsPartialWorld :: world where
  "projectsPartialWorld = sampleWorld\<lparr>getProjects := Inr ([sampleProject], True)\<rparr>"

definition timestampConfig :: config where
  "timestampConfig = sampleConfig\<lparr>withTimestamp := True\<rparr>"

definition noisyWorld :: world where
  "noisyWorld = sampleWorld\<lparr>events :=
     [ErrorEvent ''lost'', ExecOutEvent ''t1'' ''out1'' ''err1'', ExecOutEvent ''t2'' [] []]\<rparr>"

text \<open>A file system without config file, and one with the config file \<^verbatim>\<open>xds.env\<close>, which
  sets the SDK and sets the relative path to the empty string; an environment that sets
  the project, the SDK and the relative path.\<close>

definition noFiles :: "string \<Rightarrow> confFile" where
  "noFiles p = Missing"

definition sampleFiles :: "string \<Rightarrow> confFile" where
  "sampleFiles p =
     (if p = ''xds.env''
      then Present (Some [(''XDS_SDK_ID'', ''s2''), (''XDS_RPATH'', [])])
                   (Some [(''XDS_SDK_ID'', ''s2''), (''XDS_RPATH'', [])])
      else Missing)"

definition sampleEnv :: "string \<rightharpoonup> string" where
  "sampleEnv = [''XDS_PROJECT_ID'' \<mapsto> ''p1'', ''XDS_SDK_ID'' \<mapsto> ''s1'', ''XDS_RPATH'' \<mapsto> ''sub'']"

section \<open>Properties\<close>

subsection \<open>The wait on the exit channel\<close>

lemma outFunc_fields:
  "httpURL (outFunc ts t out err tr) = httpURL tr"
  "ioURL (outFunc ts t out err tr) = ioURL tr"
  "gets (outFunc ts t out err tr) = gets tr"
  "posted (outFunc ts t out err tr) = posted tr"
  by (simp_all add: outFunc_def Let_def)

lemma outFunc_written:
  "written (outFunc ts t out err tr) = written tr @ chunkWrites ts (t, out, err)"
  by (simp add: outFunc_def chunkWrites_def Let_def)

lemma waitExit_fields:
  "httpURL (fst (waitExit ts es tr)) = httpURL tr \<and>
   ioURL (fst (waitExit ts es tr)) = ioURL tr \<and>
   gets (fst (waitExit ts es tr)) = gets tr \<and>
   posted (fst (waitExit ts es tr)) = posted tr"
  by (induction ts es tr rule: waitExit.induct) (simp_all add: outFunc_fields)

lemma waitExit_fieldsD:
  "waitExit ts es tr = (tr', r) \<Longrightarrow>
   httpURL tr' = httpURL tr \<and> ioURL tr' = ioURL tr \<and> gets tr' = gets tr \<and> posted tr' = posted tr"
  using waitExit_fields [of ts es tr] by simp

lemma waitExit_append:
  "list_all (\<lambda>e. \<not> isTerminal e) pre \<Longrightarrow>
   waitExit ts (pre @ rest) tr = waitExit ts rest (fst (waitExit ts pre tr))"
  by (induction ts pre tr rule: waitExit.induct) simp_all

lemma waitExit_terminal:
  "list_all (\<lambda>e. \<not> isTerminal e) pre \<Longrightarrow>
   snd (waitExit ts (pre @ ExecExitEvent e code # post) tr) = Some (e, code) \<and>
   snd (waitExit ts (pre @ Disconnection e # post) tr) = Some (e, 2)"
  by (simp add: waitExit_append)

lemma waitExit_chunks:
  "written (fst (waitExit ts (map (\<lambda>(t, out, err). ExecOutEvent t out err) chunks) tr)) =
     written tr @ concat (map (chunkWrites ts) chunks)"
proof (induction chunks arbitrary: tr)
  case Nil
  show ?case by simp
next
  case (Cons c cs)
  obtain t out err where c: "c = (t, out, err)" by (cases c)
  show ?case unfolding c by (simp add: Cons.IH outFunc_written)
qed

lemma appAction_streaming:
  assumes "reachesStreaming cfg w argsCmd"
  shows "\<exists>tr. written tr = [] \<and>
     appAction cfg w argsCmd envm =
       (case waitExit (withTimestamp cfg) (events w) tr of
          (tr3, None) \<Rightarrow> (Blocked, tr3)
        | (tr3, Some res) \<Rightarrow> (exitOutcome res, tr3))"
proof -
  from assms obtain ps em where gp: "getProjects w = Inr (ps, em)"
    by (auto simp: reachesStreaming_def split: sum.splits)
  from assms obtain c as where ac: "argsCmd = c # as"
    by (cases argsCmd) (auto simp: reachesStreaming_def)
  let ?body = "\<lparr>ID = prjID cfg, SdkID = sdkid cfg, Cmd = strings_Trim c '' '', Args = as,
      Env = map (\<lambda>(k, v). k @ ''='' @ v) envm,
      RPath = setupRPath cfg w (find (\<lambda>f. P_ID f = prjID cfg) ps), CmdTimeout = 60\<rparr>"
  let ?tr = "\<lparr>written = [], httpURL = [baseURL (uri cfg)], ioURL = [baseURL (uri cfg)],
      gets = [''/version'', ''/projects''], posted = [(execCommand, ?body)]\<rparr>"
  have "appAction cfg w argsCmd envm =
       (case waitExit (withTimestamp cfg) (events w) ?tr of
          (tr3, None) \<Rightarrow> (Blocked, tr3)
        | (tr3, Some res) \<Rightarrow> (exitOutcome res, tr3))"
    using assms gp ac
    by (simp add: reachesStreaming_def appAction_def execFlow_def emptyTrace_def Let_def)
  moreover have "written ?tr = []" by simp
  ultimately show ?thesis by blast
qed

lemma posted_appAction:
  "posted (snd (appAction cfg w argsCmd envm)) = [] \<or>
   (\<exists>c as. argsCmd = c # as \<and> posted (snd (appAction cfg w argsCmd envm)) =
      [(execCommand, \<lparr>ID = prjID cfg, SdkID = sdkid cfg, Cmd = strings_Trim c '' '',
          Args = as, Env = map (\<lambda>(k, v). k @ ''='' @ v) envm,
          RPath = setupRPath cfg w (find (\<lambda>f. P_ID f = prjID cfg)
                    (case getProjects w of Inl e \<Rightarrow> [] | Inr (ps, m) \<Rightarrow> ps)),
          CmdTimeout = 60\<rparr>)])"
  by (auto simp: appAction_def helpFlow_def execFlow_def emptyTrace_def Let_def
        split: option.splits sum.splits list.splits prod.splits dest!: waitExit_fieldsD)

lemma sampleRun:
  "appAction sampleConfig sampleWorld [''make'', ''all''] [(''A'', ''1'')] =
     (ExitError [] 0,
      \<lparr>written = [(Stdout, ''out1''), (Stderr, ''err1'')],
       httpURL = [''http://localhost:8000''], ioURL = [''http://localhost:8000''],
       gets = [''/version'', ''/projects''],
       posted = [(''/exec'', \<lparr>ID = ''p1'', SdkID = ''s1'', Cmd = ''make'', Args = [''all''],
                   Env = [''A=1''], RPath = ''src'', CmdTimeout = 60\<rparr>)]\<rparr>)"
  by code_simp

lemma sampleReaches: "reachesStreaming sampleConfig sampleWorld [''make'', ''all'']"
  by (simp add: reachesStreaming_def sampleConfig_def sampleWorld_def)

subsection \<open>The outcome of a session\<close>

text \<open>
  Claim C1. In a session that has got as far as waiting for the end of the command, the
  first signal that ends it decides the outcome: an exit event with a code and an error
  makes the action return an exit error with exactly that code, whose message is the
  error's text (empty without an error); a disconnection that comes before any exit event
  makes it return one with code 2, whose message is the error's text as it came.
\<close>

theorem C1_terminal_outcome:
  "reachesStreaming cfg w argsCmd \<Longrightarrow> list_all (\<lambda>e. \<not> isTerminal e) pre \<Longrightarrow>
   (events w = pre @ ExecExitEvent e code # post \<longrightarrow>
      fst (appAction cfg w argsCmd envm) = ExitError (case e of None \<Rightarrow> [] | Some m \<Rightarrow> m) code) \<and>
   (events w = pre @ Disconnection e # post \<longrightarrow>
      fst (appAction cfg w argsCmd envm) = ExitError (case e of None \<Rightarrow> [] | Some m \<Rightarrow> m) 2)"
proof -
  assume r: "reachesStreaming cfg w argsCmd" and p: "list_all (\<lambda>e. \<not> isTerminal e) pre"
  from r obtain tr where run: "appAction cfg w argsCmd envm =
      (case waitExit (withTimestamp cfg) (events w) tr of
         (tr3, None) \<Rightarrow> (Blocked, tr3)
       | (tr3, Some res) \<Rightarrow> (exitOutcome res, tr3))"
    using appAction_streaming by blast
  show ?thesis
    using waitExit_terminal [OF p, of "withTimestamp cfg" e code post tr]
    by (auto simp: run exitOutcome_def split: prod.splits option.splits)
qed

theorem C1_terminal_outcome_witness:
  "(reachesStreaming sampleConfig sampleWorld [''make'', ''all''] \<and>
    list_all (\<lambda>e. \<not> isTerminal e)
      [ExecOutEvent ''t1'' ''out1'' [], ExecOutEvent ''t2'' [] ''err1''] \<and>
    events sampleWorld =
      [ExecOutEvent ''t1'' ''out1'' [], ExecOutEvent ''t2'' [] ''err1''] @ ExecExitEvent None 0 # [] \<and>
    fst (appAction sampleConfig sampleWorld [''make'', ''all''] []) = ExitError [] 0) \<and>
   (reachesStreaming sampleConfig
      (sampleWorld\<lparr>events := [ExecOutEvent ''t1'' ''out1'' []] @ Disconnection (Some ''boom'') # [ExecExitEvent None 0]\<rparr>)
      [''make'', ''all''] \<and>
    list_all (\<lambda>e. \<not> isTerminal e) [ExecOutEvent ''t1'' ''out1'' []] \<and>
    fst (appAction sampleConfig
      (sampleWorld\<lparr>events := [ExecOutEvent ''t1'' ''out1'' []] @ Disconnection (Some ''boom'') # [ExecExitEvent None 0]\<rparr>)
      [''make'', ''all''] []) = ExitError ''boom'' 2)"
proof -
  let ?w = "sampleWorld\<lparr>events := [ExecOutEvent ''t1'' ''out1'' []] @ Disconnection (Some ''boom'') # [ExecExitEvent None 0]\<rparr>"
  have r1: "reachesStreaming sampleConfig sampleWorld [''make'', ''all'']"
    by (rule sampleReaches)
  have p1: "list_all (\<lambda>e. \<not> isTerminal e)
      [ExecOutEvent ''t1'' ''out1'' [], ExecOutEvent ''t2'' [] ''err1'']"
    by simp
  have e1: "events sampleWorld =
      [ExecOutEvent ''t1'' ''out1'' [], ExecOutEvent ''t2'' [] ''err1''] @ ExecExitEvent None 0 # []"
    by (simp add: sampleWorld_def)
  have r2: "reachesStreaming sampleConfig ?w [''make'', ''all'']"
    using sampleReaches by (simp add: reachesStreaming_def)
  have p2: "list_all (\<lambda>e. \<not> isTerminal e) [ExecOutEvent ''t1'' ''out1'' []]"
    by simp
  have e2: "events ?w = [ExecOutEvent ''t1'' ''out1'' []] @ Disconnection (Some ''boom'') # [ExecExitEvent None 0]"
    by simp
  from C1_terminal_outcome [OF r1 p1, where e = None and code = 0 and post = "[]" and envm = "[]"] e1
  have o1: "fst (appAction sampleConfig sampleWorld [''make'', ''all''] []) = ExitError [] 0"
    by simp
  from C1_terminal_outcome [OF r2 p2, where e = "Some ''boom''" and post = "[ExecExitEvent None 0]" and envm = "[]"] e2
  have o2: "fst (appAction sampleConfig ?w [''make'', ''all''] []) = ExitError ''boom'' 2"
    by simp
  from r1 p1 e1 o1 r2 p2 o2 show ?thesis by blast
qed

subsection \<open>The output events\<close>

text \<open>Whatever the signals are, handled one after the other up to the first that ends the
  wait, each adds its writes behind those of the signals before it.\<close>

lemma signalWrites_cases:
  "signalWrites ts (ErrorEvent m) = [(Stdout, ''ERROR:  '' @ m @ NL)]"
  "signalWrites ts (Disconnection x) = []"
  "signalWrites ts (ExecOutEvent t out err) = chunkWrites ts (t, out, err)"
  "signalWrites ts (ExecExitEvent x c) = []"
  by (simp_all add: signalWrites_def)

lemma waitExit_written:
  "written (fst (waitExit ts es tr)) =
     written tr @ concat (map (signalWrites ts) (takeWhile (\<lambda>e. \<not> isTerminal e) es))"
proof (induction ts es tr rule: waitExit.induct)
  case (1 withTs tr)
  show ?case by simp
next
  case (2 withTs m es tr)
  then show ?case by (simp add: signalWrites_cases)
next
  case (3 withTs e es tr)
  show ?case by simp
next
  case (4 withTs t out err es tr)
  then show ?case by (simp add: signalWrites_cases outFunc_written)
next
  case (5 withTs e code es tr)
  show ?case by simp
qed

lemma appAction_written:
  assumes "reachesStreaming cfg w argsCmd"
  shows "written (snd (appAction cfg w argsCmd envm)) =
     concat (map (signalWrites (withTimestamp cfg)) (takeWhile (\<lambda>e. \<not> isTerminal e) (events w)))"
proof -
  from appAction_streaming [OF assms, of envm] obtain tr where
    tr: "written tr = []" and run: "appAction cfg w argsCmd envm =
      (case waitExit (withTimestamp cfg) (events w) tr of
         (tr3, None) \<Rightarrow> (Blocked, tr3)
       | (tr3, Some res) \<Rightarrow> (exitOutcome res, tr3))"
    by blast
  have "snd (appAction cfg w argsCmd envm) = fst (waitExit (withTimestamp cfg) (events w) tr)"
    by (simp add: run split: prod.splits option.splits)
  then show ?thesis
    by (simp add: waitExit_written tr)
qed

text \<open>
  Claim C8. Take a session that has got as far as waiting for the end of the command,
  and any signals of the socket, whether or not one of them ever ends the session. All
  that the session writes is what its handlers write for the signals that come before
  the first signal that ends the wait, in their order of arrival. For an output event
  among them, whatever comes before it (output events, error signals) and after it: the
  chunk of the standard output goes to the standard output exactly when it is not empty,
  then the chunk of the standard error to the standard error exactly when it is not
  empty, each behind the event's timestamp (followed by a bar and a space) when the
  timestamp flag is set and bare when it is not; these writes stand right behind the
  writes of the signals that came before and before those of the signals that come
  after, so that nothing is held back or moved. When the output event is the last signal
  so far, its chunks are the last writes: they are made when the event is handled, not
  when the session ends.
\<close>

theorem C8_output_events:
  "reachesStreaming cfg w argsCmd \<Longrightarrow>
   written (snd (appAction cfg w argsCmd envm)) =
     concat (map (signalWrites (withTimestamp cfg))
       (takeWhile (\<lambda>e. \<not> isTerminal e) (events w))) \<and>
   (list_all (\<lambda>e. \<not> isTerminal e) pre \<and> events w = pre @ ExecOutEvent t out err # post \<longrightarrow>
      written (snd (appAction cfg w argsCmd envm)) =
        concat (map (signalWrites (withTimestamp cfg)) pre) @
        (if out \<noteq> [] then [(Stdout, (if withTimestamp cfg then t @ ''| '' else []) @ out)] else []) @
        (if err \<noteq> [] then [(Stderr, (if withTimestamp cfg then t @ ''| '' else []) @ err)] else []) @
        concat (map (signalWrites (withTimestamp cfg))
          (takeWhile (\<lambda>e. \<not> isTerminal e) post))) \<and>
   (list_all (\<lambda>e. \<not> isTerminal e) pre \<and> events w = pre @ [ExecOutEvent t out err] \<longrightarrow>
      fst (appAction cfg w argsCmd envm) = Blocked \<and>
      written (snd (appAction cfg w argsCmd envm)) =
        concat (map (signalWrites (withTimestamp cfg)) pre) @
        (if out \<noteq> [] then [(Stdout, (if withTimestamp cfg then t @ ''| '' else []) @ out)] else []) @
        (if err \<noteq> [] then [(Stderr, (if withTimestamp cfg then t @ ''| '' else []) @ err)] else []))"
proof -
  assume r: "reachesStreaming cfg w argsCmd"
  let ?ts = "withTimestamp cfg"
  let ?chunk = "(if out \<noteq> [] then [(Stdout, (if ?ts then t @ ''| '' else []) @ out)] else []) @
        (if err \<noteq> [] then [(Stderr, (if ?ts then t @ ''| '' else []) @ err)] else [])"
  have one: "signalWrites ?ts (ExecOutEvent t out err) = ?chunk"
    by (simp add: signalWrites_cases chunkWrites_def)
  have keep: "list_all (\<lambda>e. \<not> isTerminal e) pre \<Longrightarrow>
      takeWhile (\<lambda>e. \<not> isTerminal e) (pre @ ExecOutEvent t out err # post) =
        pre @ ExecOutEvent t out err # takeWhile (\<lambda>e. \<not> isTerminal e) post"
    for post
    by (induction pre) simp_all
  have all: "written (snd (appAction cfg w argsCmd envm)) =
     concat (map (signalWrites ?ts) (takeWhile (\<lambda>e. \<not> isTerminal e) (events w)))"
    by (rule appAction_written [OF r])
  have mid: "list_all (\<lambda>e. \<not> isTerminal e) pre \<and> events w = pre @ ExecOutEvent t out err # post \<longrightarrow>
      written (snd (appAction cfg w argsCmd envm)) =
        concat (map (signalWrites ?ts) pre) @ ?chunk @
        concat (map (signalWrites ?ts) (takeWhile (\<lambda>e. \<not> isTerminal e) post))"
    for post
  proof
    assume h: "list_all (\<lambda>e. \<not> isTerminal e) pre \<and> events w = pre @ ExecOutEvent t out err # post"
    then have nt: "list_all (\<lambda>e. \<not> isTerminal e) pre"
      and ev: "events w = pre @ ExecOutEvent t out err # post"
      by simp_all
    have "takeWhile (\<lambda>e. \<not> isTerminal e) (events w) =
        pre @ ExecOutEvent t out err # takeWhile (\<lambda>e. \<not> isTerminal e) post"
      unfolding ev by (rule keep [OF nt])
    then show "written (snd (appAction cfg w argsCmd envm)) =
        concat (map (signalWrites ?ts) pre) @ ?chunk @
        concat (map (signalWrites ?ts) (takeWhile (\<lambda>e. \<not> isTerminal e) post))"
      unfolding all by (simp only: map_append list.map concat_append concat.simps one)
  qed
  have blocked: "list_all (\<lambda>e. \<not> isTerminal e) pre \<and> events w = pre @ [ExecOutEvent t out err] \<longrightarrow>
      fst (appAction cfg w argsCmd envm) = Blocked"
  proof
    assume h: "list_all (\<lambda>e. \<not> isTerminal e) pre \<and> events w = pre @ [ExecOutEvent t out err]"
    from appAction_streaming [OF r, of envm] obtain tr where
      run: "appAction cfg w argsCmd envm =
        (case waitExit ?ts (events w) tr of
           (tr3, None) \<Rightarrow> (Blocked, tr3)
         | (tr3, Some res) \<Rightarrow> (exitOutcome res, tr3))"
      by blast
    from h have "snd (waitExit ?ts (events w) tr) = None"
      by (simp add: waitExit_append)
    then show "fst (appAction cfg w argsCmd envm) = Blocked"
      unfolding run by (cases "waitExit ?ts (events w) tr") simp
  qed
  from all mid [of post] mid [of "[]"] blocked show ?thesis
    by simp
qed

theorem C8_output_events_witness:
  "reachesStreaming timestampConfig noisyWorld [''make'', ''all''] \<and>
   list_all (\<lambda>e. \<not> isTerminal e) [ErrorEvent ''lost''] \<and>
   events noisyWorld = [ErrorEvent ''lost''] @ ExecOutEvent ''t1'' ''out1'' ''err1'' # [ExecOutEvent ''t2'' [] []] \<and>
   written (snd (appAction timestampConfig noisyWorld [''make'', ''all''] [])) =
     [(Stdout, ''ERROR:  lost'' @ NL), (Stdout, ''t1| out1''), (Stderr, ''t1| err1'')] \<and>
   list_all (\<lambda>e. \<not> isTerminal e) [ErrorEvent ''lost'', ExecOutEvent ''t1'' ''out1'' ''err1''] \<and>
   events noisyWorld = [ErrorEvent ''lost'', ExecOutEvent ''t1'' ''out1'' ''err1''] @ [ExecOutEvent ''t2'' [] []] \<and>
   fst (appAction timestampConfig noisyWorld [''make'', ''all''] []) = Blocked"
proof -
  have r: "reachesStreaming timestampConfig noisyWorld [''make'', ''all'']"
    using sampleReaches
    by (simp add: reachesStreaming_def timestampConfig_def noisyWorld_def)
  have ts: "withTimestamp timestampConfig = True"
    by (simp add: timestampConfig_def)
  have p1: "list_all (\<lambda>e. \<not> isTerminal e) [ErrorEvent ''lost'']"
    by simp
  have e1: "events noisyWorld =
      [ErrorEvent ''lost''] @ ExecOutEvent ''t1'' ''out1'' ''err1'' # [ExecOutEvent ''t2'' [] []]"
    by (simp add: noisyWorld_def)
  have p2: "list_all (\<lambda>e. \<not> isTerminal e) [ErrorEvent ''lost'', ExecOutEvent ''t1'' ''out1'' ''err1'']"
    by simp
  have e2: "events noisyWorld =
      [ErrorEvent ''lost'', ExecOutEvent ''t1'' ''out1'' ''err1''] @ [ExecOutEvent ''t2'' [] []]"
    by (simp add: noisyWorld_def)
  note a = C8_output_events [OF r, where pre = "[ErrorEvent ''lost'']" and t = "''t1''"
      and out = "''out1''" and err = "''err1''" and post = "[ExecOutEvent ''t2'' [] []]"
      and envm = "[]"]
  note b = C8_output_events [OF r, where pre = "[ErrorEvent ''lost'', ExecOutEvent ''t1'' ''out1'' ''err1'']"
      and t = "''t2''" and out = "[]" and err = "[]" and post = "[]" and envm = "[]"]
  from a p1 e1 have "written (snd (appAction timestampConfig noisyWorld [''make'', ''all''] [])) =
      concat (map (signalWrites (withTimestamp timestampConfig)) [ErrorEvent ''lost'']) @
      (if ''out1'' \<noteq> [] then [(Stdout, (if withTimestamp timestampConfig then ''t1'' @ ''| '' else []) @ ''out1'')] else []) @
      (if ''err1'' \<noteq> [] then [(Stderr, (if withTimestamp timestampConfig then ''t1'' @ ''| '' else []) @ ''err1'')] else []) @
      concat (map (signalWrites (withTimestamp timestampConfig))
        (takeWhile (\<lambda>e. \<not> isTerminal e) [ExecOutEvent ''t2'' [] []]))"
    by blast
  then have w: "written (snd (appAction timestampConfig noisyWorld [''make'', ''all''] [])) =
     [(Stdout, ''ERROR:  lost'' @ NL), (Stdout, ''t1| out1''), (Stderr, ''t1| err1'')]"
    by (simp add: ts signalWrites_cases chunkWrites_def)
  from b p2 e2 have bl: "fst (appAction timestampConfig noisyWorld [''make'', ''all''] []) = Blocked"
    by blast
  from r p1 e1 w p2 e2 bl show ?thesis
    by blast
qed

subsection \<open>The exec request\<close>

text \<open>
  Claim C10. Every exec request that a session posts carries the command timeout 60,
  whatever the flags, the environment and the config file have set: the configuration,
  the native command and the variables of the config file are arbitrary here.
\<close>

theorem C10_timeout:
  "(p, r) \<in> set (posted (snd (appAction cfg w argsCmd envm))) \<Longrightarrow> CmdTimeout r = 60"
  using posted_appAction [of cfg w argsCmd envm] by auto

theorem C10_timeout_witness:
  "(''/exec'', \<lparr>ID = ''p1'', SdkID = ''s1'', Cmd = ''make'', Args = [''all''],
               Env = [''A=1''], RPath = ''src'', CmdTimeout = 60\<rparr>)
     \<in> set (posted (snd (appAction sampleConfig sampleWorld [''make'', ''all''] [(''A'', ''1'')])))
   \<and> CmdTimeout \<lparr>ID = ''p1'', SdkID = ''s1'', Cmd = ''make'', Args = [''all''],
                   Env = [''A=1''], RPath = ''src'', CmdTimeout = 60\<rparr> = 60"
proof -
  have mem: "(''/exec'', \<lparr>ID = ''p1'', SdkID = ''s1'', Cmd = ''make'', Args = [''all''],
                   Env = [''A=1''], RPath = ''src'', CmdTimeout = 60\<rparr>)
     \<in> set (posted (snd (appAction sampleConfig sampleWorld [''make'', ''all''] [(''A'', ''1'')])))"
    by (simp add: sampleRun)
  from mem C10_timeout [OF mem] show ?thesis by blast
qed

subsection \<open>The relative path taken from the working directory\<close>

lemma strings_Index_None: "strings_Index s sep = None \<longleftrightarrow> \<not> sublist sep s"
  by (induction s) (auto simp: sublist_Cons_right)

text \<open>\<open>strings_Index\<close> gives the leftmost position at which the separator stands.\<close>

lemma strings_Index_first:
  "strings_Index s sep = Some m \<longleftrightarrow>
     m \<le> length s \<and> prefix sep (drop m s) \<and> (\<forall>k<m. \<not> prefix sep (drop k s))"
proof (induction s arbitrary: m)
  case Nil
  then show ?case by auto
next
  case (Cons c cs)
  show ?case
  proof (cases "prefix sep (c # cs)")
    case True
    then show ?thesis by (cases m) auto
  next
    case False
    show ?thesis
    proof (cases m)
      case 0
      with False show ?thesis by auto
    next
      case (Suc j)
      have "(\<forall>k<Suc j. \<not> prefix sep (drop k (c # cs))) \<longleftrightarrow> (\<forall>k<j. \<not> prefix sep (drop k cs))"
        using False by (auto simp: less_Suc_eq_0_disj)
      with False Suc Cons.IH [of j] show ?thesis by auto
    qed
  qed
qed

lemma SplitAfter_None:
  "sep \<noteq> [] \<Longrightarrow> strings_Index s sep = None \<Longrightarrow> strings_SplitAfter s sep = [s]"
  by (subst strings_SplitAfter.simps) simp

lemma SplitAfter_Some:
  "sep \<noteq> [] \<Longrightarrow> strings_Index s sep = Some m \<Longrightarrow>
   strings_SplitAfter s sep =
     take (m + length sep) s # strings_SplitAfter (drop (m + length sep) s) sep"
  by (subst strings_SplitAfter.simps) simp

lemma SplitAfter_length1:
  "sep \<noteq> [] \<Longrightarrow> length (strings_SplitAfter s sep) = Suc 0 \<longleftrightarrow> strings_Index s sep = None"
proof (cases "strings_Index s sep")
  case None
  assume "sep \<noteq> []"
  with None show ?thesis by (simp add: SplitAfter_None)
next
  case (Some m)
  assume sep: "sep \<noteq> []"
  have "strings_SplitAfter t sep \<noteq> []" for t
    using sep by (subst strings_SplitAfter.simps) (simp split: option.splits)
  with sep Some show ?thesis by (simp add: SplitAfter_Some)
qed

lemma autoRPath_eq:
  "autoRPath cwd cp =
     (case strings_Index cwd (normRoot cp) of
        None \<Rightarrow> None
      | Some m \<Rightarrow>
          if sublist (normRoot cp) (drop (m + length (normRoot cp)) cwd) then None
          else Some (strings_Trim (drop (m + length (normRoot cp)) cwd) ''/''))"
proof -
  define root where "root = normRoot cp"
  have ne: "root \<noteq> []"
    by (auto simp: root_def normRoot_def strings_HasPrefix_def)
  have auto: "autoRPath cwd cp =
      (if length (strings_SplitAfter cwd root) = 2
       then Some (strings_Trim (strings_SplitAfter cwd root ! 1) ''/'') else None)"
    by (simp add: autoRPath_def root_def normRoot_def Let_def)
  have "autoRPath cwd cp =
     (case strings_Index cwd root of
        None \<Rightarrow> None
      | Some m \<Rightarrow>
          if sublist root (drop (m + length root) cwd) then None
          else Some (strings_Trim (drop (m + length root) cwd) ''/''))"
  proof (cases "strings_Index cwd root")
    case None
    with ne show ?thesis
      by (simp add: auto SplitAfter_None)
  next
    case first: (Some m)
    let ?rest = "drop (m + length root) cwd"
    show ?thesis
    proof (cases "strings_Index ?rest root")
      case None
      then have "\<not> sublist root ?rest"
        by (simp add: strings_Index_None)
      moreover have "strings_SplitAfter cwd root = [take (m + length root) cwd, ?rest]"
        using ne first None by (simp add: SplitAfter_Some SplitAfter_None)
      ultimately show ?thesis
        using first by (simp add: auto)
    next
      case (Some k)
      then have again: "sublist root ?rest"
        using strings_Index_None [of ?rest root] by simp
      have "length (strings_SplitAfter ?rest root) \<noteq> Suc 0"
        using ne Some by (simp add: SplitAfter_length1)
      then have "length (strings_SplitAfter cwd root) \<noteq> 2"
        using ne first by (simp add: SplitAfter_Some)
      with again first show ?thesis
        by (simp add: auto)
    qed
  qed
  then show ?thesis unfolding root_def .
qed

text \<open>
  Claim C4, as the code has it. The project's client path is made to begin with a slash.
  When the working directory does not contain it, no path is inferred. When it does, the
  path inferred is what follows its first occurrence, without leading and trailing
  slashes, provided that it does not occur again in what follows; when it occurs again
  there (\<^verbatim>\<open>SplitAfter\<close> then gives more than two pieces) no path is inferred. Where no path is
  inferred, and no relative path was given, the relative path stays empty and nothing
  fails.
\<close>

theorem C4_auto_rpath:
  "(\<not> sublist (normRoot cp) cwd \<longrightarrow> autoRPath cwd cp = None) \<and>
   (strings_Index cwd (normRoot cp) = Some m \<longrightarrow>
      autoRPath cwd cp =
        (if sublist (normRoot cp) (drop (m + length (normRoot cp)) cwd) then None
         else Some (strings_Trim (drop (m + length (normRoot cp)) cwd) ''/''))) \<and>
   (rPath cfg = [] \<and> getwd w = Some cwd \<longrightarrow>
      setupRPath cfg w (Some prj) =
        (case autoRPath cwd (P_ClientPath prj) of None \<Rightarrow> [] | Some r \<Rightarrow> r))"
proof (intro conjI impI)
  assume "\<not> sublist (normRoot cp) cwd"
  then have "strings_Index cwd (normRoot cp) = None"
    by (simp add: strings_Index_None)
  then show "autoRPath cwd cp = None"
    by (simp add: autoRPath_eq)
next
  assume "strings_Index cwd (normRoot cp) = Some m"
  then show "autoRPath cwd cp =
        (if sublist (normRoot cp) (drop (m + length (normRoot cp)) cwd) then None
         else Some (strings_Trim (drop (m + length (normRoot cp)) cwd) ''/''))"
    by (simp add: autoRPath_eq)
next
  assume "rPath cfg = [] \<and> getwd w = Some cwd"
  then show "setupRPath cfg w (Some prj) =
        (case autoRPath cwd (P_ClientPath prj) of None \<Rightarrow> [] | Some r \<Rightarrow> r)"
    by (simp add: setupRPath_def split: option.splits)
qed

theorem C4_auto_rpath_witness:
  "(\<not> sublist (normRoot ''proj'') ''/home/u/other'' \<and> autoRPath ''/home/u/other'' ''proj'' = None) \<and>
   (strings_Index ''/home/u/proj/src'' (normRoot ''proj'') = Some 7 \<and>
    autoRPath ''/home/u/proj/src'' ''proj'' = Some ''src'') \<and>
   (strings_Index ''/proj/a/proj/b'' (normRoot ''proj'') = Some 0 \<and>
    autoRPath ''/proj/a/proj/b'' ''proj'' = None) \<and>
   (rPath sampleConfig = [] \<and> getwd sampleWorld = Some ''/home/u/proj/src'' \<and>
    setupRPath sampleConfig sampleWorld (Some sampleProject) = ''src'')"
proof -
  have h1: "\<not> sublist (normRoot ''proj'') ''/home/u/other''"
    by code_simp
  have h2: "strings_Index ''/home/u/proj/src'' (normRoot ''proj'') = Some 7"
    by code_simp
  have h3: "strings_Index ''/proj/a/proj/b'' (normRoot ''proj'') = Some 0"
    by code_simp
  have h4: "rPath sampleConfig = [] \<and> getwd sampleWorld = Some ''/home/u/proj/src''"
    by (simp add: sampleConfig_def sampleWorld_def)
  have t2: "(if sublist (normRoot ''proj'') (drop (7 + length (normRoot ''proj'')) ''/home/u/proj/src'')
       then None
       else Some (strings_Trim (drop (7 + length (normRoot ''proj'')) ''/home/u/proj/src'') ''/''))
     = Some ''src''"
    by code_simp
  have t3: "(if sublist (normRoot ''proj'') (drop (0 + length (normRoot ''proj'')) ''/proj/a/proj/b'')
       then None
       else Some (strings_Trim (drop (0 + length (normRoot ''proj'')) ''/proj/a/proj/b'') ''/''))
     = None"
    by code_simp
  have c: "P_ClientPath sampleProject = ''proj''"
    by (simp add: sampleProject_def)
  note a = C4_auto_rpath [of "''proj''" "''/home/u/other''" 0 sampleConfig sampleWorld sampleProject]
  note b = C4_auto_rpath [of "''proj''" "''/home/u/proj/src''" 7 sampleConfig sampleWorld sampleProject]
  note d = C4_auto_rpath [of "''proj''" "''/proj/a/proj/b''" 0 sampleConfig sampleWorld sampleProject]
  from a h1 have r1: "autoRPath ''/home/u/other'' ''proj'' = None"
    by blast
  from b h2 t2 have r2: "autoRPath ''/home/u/proj/src'' ''proj'' = Some ''src''"
    by simp
  from d h3 t3 have r3: "autoRPath ''/proj/a/proj/b'' ''proj'' = None"
    by simp
  from b h4 r2 c have r4: "setupRPath sampleConfig sampleWorld (Some sampleProject) = ''src''"
    by simp
  from h1 r1 h2 r2 h3 r3 h4 r4 show ?thesis
    by blast
qed

text \<open>The claim as it is written fails where the client path occurs twice in the working
  directory: what follows the first occurrence is not taken, nothing is.\<close>

theorem C4_counterexample:
  "sublist (normRoot ''proj'') ''/proj/a/proj/b'' \<and>
   strings_Index ''/proj/a/proj/b'' (normRoot ''proj'') = Some 0 \<and>
   strings_Trim (drop (0 + length (normRoot ''proj'')) ''/proj/a/proj/b'') ''/'' = ''a/proj/b'' \<and>
   autoRPath ''/proj/a/proj/b'' ''proj'' \<noteq> Some ''a/proj/b''"
  by code_simp

subsection \<open>The URL of the agent\<close>

lemma appAction_urls:
  "set (httpURL (snd (appAction cfg w argsCmd envm))) \<subseteq> {baseURL (uri cfg)} \<and>
   set (ioURL (snd (appAction cfg w argsCmd envm))) \<subseteq> {baseURL (uri cfg)}"
  by (auto simp: appAction_def helpFlow_def execFlow_def emptyTrace_def Let_def
        split: option.splits sum.splits list.splits prod.splits dest!: waitExit_fieldsD)

text \<open>
  Claim C9, as the code has it. The flag of the agent URL is declared with the default
  \<^verbatim>\<open>localhost:8000\<close>, which gives the base URL \<^verbatim>\<open>http://localhost:8000\<close>. The HTTP client and
  the socket client are both given the base URL and no other. The base URL is the
  configured URL when that begins with \<^verbatim>\<open>http://\<close>, and \<^verbatim>\<open>http://\<close> followed by the
  configured URL when it does not.
\<close>

theorem C9_base_url:
  "(''url'', ''XDS_AGENT_URL'', ''localhost:8000'') \<in> set (stringFlags appFlags) \<and>
   baseURL ''localhost:8000'' = ''http://localhost:8000'' \<and>
   set (httpURL (snd (appAction cfg w argsCmd envm))) \<subseteq> {baseURL (uri cfg)} \<and>
   set (ioURL (snd (appAction cfg w argsCmd envm))) \<subseteq> {baseURL (uri cfg)} \<and>
   (prefix ''http://'' u \<longrightarrow> baseURL u = u) \<and>
   (\<not> prefix ''http://'' u \<longrightarrow> baseURL u = ''http://'' @ u)"
proof -
  have "(''url'', ''XDS_AGENT_URL'', ''localhost:8000'') \<in> set (stringFlags appFlags)"
    by (simp add: appFlags_def)
  moreover have "baseURL ''localhost:8000'' = ''http://localhost:8000''"
    by (simp add: baseURL_def strings_HasPrefix_def)
  moreover have "(prefix ''http://'' u \<longrightarrow> baseURL u = u) \<and>
      (\<not> prefix ''http://'' u \<longrightarrow> baseURL u = ''http://'' @ u)"
    by (simp add: baseURL_def strings_HasPrefix_def)
  ultimately show ?thesis
    using appAction_urls [of cfg w argsCmd envm] by blast
qed

theorem C9_base_url_witness:
  "prefix ''http://'' ''http://agent:8000'' \<and> baseURL ''http://agent:8000'' = ''http://agent:8000'' \<and>
   \<not> prefix ''http://'' ''agent:8000'' \<and> baseURL ''agent:8000'' = ''http://'' @ ''agent:8000'' \<and>
   set (httpURL (snd (appAction sampleConfig sampleWorld [''make'', ''all''] [(''A'', ''1'')])))
     \<subseteq> {baseURL (uri sampleConfig)} \<and>
   ioURL (snd (appAction sampleConfig sampleWorld [''make'', ''all''] [(''A'', ''1'')])) =
     [''http://localhost:8000'']"
proof -
  have p1: "prefix ''http://'' ''http://agent:8000''" by simp
  have p2: "\<not> prefix ''http://'' ''agent:8000''" by simp
  note a = C9_base_url [of sampleConfig sampleWorld "[''make'', ''all'']" "[(''A'', ''1'')]" "''http://agent:8000''"]
  note b = C9_base_url [of sampleConfig sampleWorld "[''make'', ''all'']" "[(''A'', ''1'')]" "''agent:8000''"]
  from a p1 have r1: "baseURL ''http://agent:8000'' = ''http://agent:8000''" by blast
  from b p2 have r2: "baseURL ''agent:8000'' = ''http://'' @ ''agent:8000''" by blast
  from a have r3: "set (httpURL (snd (appAction sampleConfig sampleWorld [''make'', ''all''] [(''A'', ''1'')])))
     \<subseteq> {baseURL (uri sampleConfig)}" by blast
  have r4: "ioURL (snd (appAction sampleConfig sampleWorld [''make'', ''all''] [(''A'', ''1'')])) =
     [''http://localhost:8000'']"
    by (simp add: sampleRun)
  from p1 r1 p2 r2 r3 r4 show ?thesis by blast
qed

text \<open>The claim as it is written fails for a URL that carries another scheme than
  \<^verbatim>\<open>http\<close>: it is not used unchanged.\<close>

theorem C9_counterexample:
  "baseURL ''https://localhost:8000'' = ''http://https://localhost:8000'' \<and>
   baseURL ''https://localhost:8000'' \<noteq> ''https://localhost:8000''"
  by (simp add: baseURL_def strings_HasPrefix_def)

subsection \<open>The help\<close>

lemma appAction_help:
  "agentAlive w \<Longrightarrow> prjID cfg = [] \<or> listProject cfg \<Longrightarrow> getProjects w = Inr (ps, ep) \<Longrightarrow>
   fst (appAction cfg w argsCmd envm) =
     (case getSdks w of
        Inl e \<Rightarrow> ExitError e 1
      | Inr (sdks, es) \<Rightarrow>
          ExitError (helpMsg (fmtQuote w) (listProject cfg) ps ep sdks es) (if listProject cfg then 0 else 1))"
  by (auto simp: agentAlive_def appAction_def helpFlow_def Let_def split: sum.splits)

lemma appAction_help_trace:
  "prjID cfg = [] \<or> listProject cfg \<Longrightarrow>
   ioURL (snd (appAction cfg w argsCmd envm)) = [] \<and>
   posted (snd (appAction cfg w argsCmd envm)) = []"
  by (auto simp: appAction_def helpFlow_def emptyTrace_def Let_def
        split: option.splits sum.splits)

lemma sublist_in_middle: "sublist x y \<Longrightarrow> sublist x (a @ y @ b)"
proof -
  assume "sublist x y"
  then obtain p s where "y = p @ x @ s"
    by (auto simp: sublist_def)
  then have "a @ y @ b = (a @ p) @ x @ (s @ b)"
    by simp
  then show ?thesis
    unfolding sublist_def by blast
qed

lemma sublist_concat_map: "x \<in> set xs \<Longrightarrow> sublist (f x) (concat (map f xs))"
proof -
  assume "x \<in> set xs"
  then obtain a b where "xs = a @ x # b"
    by (auto dest: split_list)
  then have "concat (map f xs) = concat (map f a) @ f x @ concat (map f b)"
    by simp
  then show ?thesis
    by (simp only: sublist_appendI)
qed

lemma projectLine_names: "sublist (P_ID p) (projectLine p) \<and> sublist (P_Label p) (projectLine p)"
proof
  have "projectLine p = (NL @ ''  '') @ P_ID p @ (TAB @ '' | '' @ P_Label p @
     (if P_DefaultSdk p \<noteq> [] then TAB @ ''(default SDK: '' @ P_DefaultSdk p @ '')'' else []))"
    by (simp add: projectLine_def)
  then show "sublist (P_ID p) (projectLine p)"
    by (simp only: sublist_appendI)
  have "projectLine p = (NL @ ''  '' @ P_ID p @ TAB @ '' | '') @ P_Label p @
     (if P_DefaultSdk p \<noteq> [] then TAB @ ''(default SDK: '' @ P_DefaultSdk p @ '')'' else [])"
    by (simp add: projectLine_def)
  then show "sublist (P_Label p) (projectLine p)"
    by (simp only: sublist_appendI)
qed

lemma sdkLine_names: "sublist (S_ID s) (sdkLine s) \<and> sublist (S_Name s) (sdkLine s)"
proof
  have "sdkLine s = ''  '' @ S_ID s @ (TAB @ '' | '' @ S_Name s @ NL)"
    by (simp add: sdkLine_def)
  then show "sublist (S_ID s) (sdkLine s)"
    by (simp only: sublist_appendI)
  have "sdkLine s = (''  '' @ S_ID s @ TAB @ '' | '') @ S_Name s @ NL"
    by (simp add: sdkLine_def)
  then show "sublist (S_Name s) (sdkLine s)"
    by (simp only: sublist_appendI)
qed

lemma helpMsg_projects:
  assumes "\<not> ep" and "p \<in> set ps"
  shows "sublist (projectLine p) (helpMsg q l ps ep sdks es)"
proof -
  let ?a = "(if \<not> l then ''XDS_PROJECT_ID environment variable must be set !'' @ NL else []) @
     ''List of existing projects (use: export XDS_PROJECT_ID=<< ID >>): '' @ NL @
     ''  ID'' @ TAB @ TAB @ TAB @ TAB @ '' | Label''"
  let ?b = "NL @ (if \<not> es then sdksText sdks else []) @
     (case (ps, sdks) of (p # _, s # _) \<Rightarrow> exampleText q (P_ID p) (S_ID s) | _ \<Rightarrow> [])"
  have "helpMsg q l ps ep sdks es = ?a @ concat (map projectLine ps) @ ?b"
    using assms by (simp add: helpMsg_def projectsText_def)
  moreover have "sublist (projectLine p) (concat (map projectLine ps))"
    using assms by (simp add: sublist_concat_map)
  ultimately show ?thesis
    by (simp only: sublist_in_middle)
qed

lemma helpMsg_sdks:
  assumes "\<not> es" and "s \<in> set sdks"
  shows "sublist (sdkLine s) (helpMsg q l ps ep sdks es)"
proof -
  let ?a = "(if \<not> l then ''XDS_PROJECT_ID environment variable must be set !'' @ NL else []) @
     (if \<not> ep then projectsText ps else []) @
     NL @ ''List of installed cross SDKs (use: export XDS_SDK_ID=<< ID >>): '' @ NL @
     ''  ID'' @ TAB @ TAB @ TAB @ TAB @ TAB @ '' | NAME'' @ NL"
  let ?b = "case (ps, sdks) of (p # _, s # _) \<Rightarrow> exampleText q (P_ID p) (S_ID s) | _ \<Rightarrow> []"
  have "helpMsg q l ps ep sdks es = ?a @ concat (map sdkLine sdks) @ ?b"
    using assms by (simp add: helpMsg_def sdksText_def)
  moreover have "sublist (sdkLine s) (concat (map sdkLine sdks))"
    using assms by (simp add: sublist_concat_map)
  ultimately show ?thesis
    by (simp only: sublist_in_middle)
qed

lemma helpMsg_example:
  "suffix (exampleText q (P_ID p) (S_ID s)) (helpMsg q l (p # ps) ep (s # sdks) es)"
  unfolding suffix_def helpMsg_def by (simp del: append_assoc add: append_assoc [symmetric])

lemma helpMsg_no_example:
  "ps = [] \<or> sdks = [] \<Longrightarrow>
   helpMsg q l ps ep sdks es =
     (if \<not> l then ''XDS_PROJECT_ID environment variable must be set !'' @ NL else []) @
     (if \<not> ep then projectsText ps else []) @ (if \<not> es then sdksText sdks else [])"
  by (auto simp: helpMsg_def split: list.splits)
lemma sampleAlive:
  "agentAlive sampleWorld" "agentAlive sdksFailWorld" "agentAlive projectsFailWorld"
  "agentAlive projectsMalformedWorld" "agentAlive sdksMalformedWorld"
  by (simp_all add: agentAlive_def sampleWorld_def sdksFailWorld_def projectsFailWorld_def
        projectsMalformedWorld_def sdksMalformedWorld_def)

text \<open>
  Claim C5, as the code has it. A session in which the project ID is empty or the listing
  was asked for never opens the socket and never posts an exec request. When it has the
  list of the projects and the agent answers the query of the SDKs, it returns the help
  with the code 0 if the listing was asked for and 1 otherwise; the help has a line for
  each project and each SDK whose list was decoded, and ends with the usage example when
  there is at least one project and one SDK. When the query of the SDKs fails, it
  returns that error with the code 1, also when the listing was asked for.
\<close>

theorem C5_help_outcome:
  "prjID cfg = [] \<or> listProject cfg \<Longrightarrow>
   ioURL (snd (appAction cfg w argsCmd envm)) = [] \<and>
   posted (snd (appAction cfg w argsCmd envm)) = [] \<and>
   (agentAlive w \<and> getProjects w = Inr (ps, ep) \<and> getSdks w = Inr (sdks, es) \<longrightarrow>
      fst (appAction cfg w argsCmd envm) =
        ExitError (helpMsg (fmtQuote w) (listProject cfg) ps ep sdks es) (if listProject cfg then 0 else 1) \<and>
      (\<forall>p \<in> set ps. \<not> ep \<longrightarrow> sublist (projectLine p) (helpMsg (fmtQuote w) (listProject cfg) ps ep sdks es)) \<and>
      (\<forall>s \<in> set sdks. \<not> es \<longrightarrow> sublist (sdkLine s) (helpMsg (fmtQuote w) (listProject cfg) ps ep sdks es)) \<and>
      (ps \<noteq> [] \<and> sdks \<noteq> [] \<longrightarrow>
         suffix (exampleText (fmtQuote w) (P_ID (hd ps)) (S_ID (hd sdks)))
           (helpMsg (fmtQuote w) (listProject cfg) ps ep sdks es))) \<and>
   (agentAlive w \<and> getProjects w = Inr (ps, ep) \<and> getSdks w = Inl e \<longrightarrow>
      fst (appAction cfg w argsCmd envm) = ExitError e 1)"
proof -
  assume mode: "prjID cfg = [] \<or> listProject cfg"
  have ex: "ps \<noteq> [] \<and> sdks \<noteq> [] \<longrightarrow>
         suffix (exampleText (fmtQuote w) (P_ID (hd ps)) (S_ID (hd sdks)))
           (helpMsg (fmtQuote w) (listProject cfg) ps ep sdks es)"
  proof
    assume "ps \<noteq> [] \<and> sdks \<noteq> []"
    then obtain p ps' s sdks' where "ps = p # ps'" "sdks = s # sdks'"
      by (cases ps; cases sdks) auto
    then show "suffix (exampleText (fmtQuote w) (P_ID (hd ps)) (S_ID (hd sdks)))
           (helpMsg (fmtQuote w) (listProject cfg) ps ep sdks es)"
      by (simp add: helpMsg_example)
  qed
  have ok: "agentAlive w \<and> getProjects w = Inr (ps, ep) \<and> getSdks w = Inr (sdks, es) \<longrightarrow>
      fst (appAction cfg w argsCmd envm) =
        ExitError (helpMsg (fmtQuote w) (listProject cfg) ps ep sdks es) (if listProject cfg then 0 else 1)"
  proof
    assume h: "agentAlive w \<and> getProjects w = Inr (ps, ep) \<and> getSdks w = Inr (sdks, es)"
    then have "agentAlive w" and "getProjects w = Inr (ps, ep)" by simp_all
    from appAction_help [OF this(1) mode this(2), of argsCmd envm] h
    show "fst (appAction cfg w argsCmd envm) =
        ExitError (helpMsg (fmtQuote w) (listProject cfg) ps ep sdks es) (if listProject cfg then 0 else 1)"
      by simp
  qed
  have ko: "agentAlive w \<and> getProjects w = Inr (ps, ep) \<and> getSdks w = Inl e \<longrightarrow>
      fst (appAction cfg w argsCmd envm) = ExitError e 1"
  proof
    assume h: "agentAlive w \<and> getProjects w = Inr (ps, ep) \<and> getSdks w = Inl e"
    then have "agentAlive w" and "getProjects w = Inr (ps, ep)" by simp_all
    from appAction_help [OF this(1) mode this(2), of argsCmd envm] h
    show "fst (appAction cfg w argsCmd envm) = ExitError e 1"
      by simp
  qed
  from appAction_help_trace [OF mode] ok ko ex show ?thesis
    by (simp add: helpMsg_projects helpMsg_sdks)
qed

theorem C5_help_outcome_witness:
  "(prjID noProjectConfig = [] \<or> listProject noProjectConfig) \<and>
   agentAlive sampleWorld \<and> getProjects sampleWorld = Inr ([sampleProject], False) \<and>
   getSdks sampleWorld = Inr ([sampleSdk], False) \<and>
   sampleProject \<in> set [sampleProject] \<and> sampleSdk \<in> set [sampleSdk] \<and>
   fst (appAction noProjectConfig sampleWorld [] []) =
     ExitError (helpMsg quotePlain False [sampleProject] False [sampleSdk] False) 1 \<and>
   sublist (projectLine sampleProject) (helpMsg quotePlain False [sampleProject] False [sampleSdk] False) \<and>
   sublist (sdkLine sampleSdk) (helpMsg quotePlain False [sampleProject] False [sampleSdk] False) \<and>
   suffix (exampleText quotePlain ''p1'' ''s1'') (helpMsg quotePlain False [sampleProject] False [sampleSdk] False) \<and>
   ioURL (snd (appAction noProjectConfig sampleWorld [] [])) = [] \<and>
   posted (snd (appAction noProjectConfig sampleWorld [] [])) = [] \<and>
   (prjID listingConfig = [] \<or> listProject listingConfig) \<and>
   agentAlive sdksFailWorld \<and> getProjects sdksFailWorld = Inr ([sampleProject], False) \<and>
   getSdks sdksFailWorld = Inl ''Get /servers/0/sdks: 500'' \<and>
   fst (appAction listingConfig sdksFailWorld [] []) = ExitError ''Get /servers/0/sdks: 500'' 1"
proof -
  have m1: "prjID noProjectConfig = [] \<or> listProject noProjectConfig"
    by (simp add: noProjectConfig_def)
  have l1: "listProject noProjectConfig = False"
    by (simp add: noProjectConfig_def sampleConfig_def)
  have w1: "agentAlive sampleWorld \<and> getProjects sampleWorld = Inr ([sampleProject], False) \<and>
     getSdks sampleWorld = Inr ([sampleSdk], False)"
    by (simp add: sampleAlive) (simp add: sampleWorld_def)
  have m2: "prjID listingConfig = [] \<or> listProject listingConfig"
    by (simp add: listingConfig_def)
  have w2: "agentAlive sdksFailWorld \<and> getProjects sdksFailWorld = Inr ([sampleProject], False) \<and>
     getSdks sdksFailWorld = Inl ''Get /servers/0/sdks: 500''"
    by (simp add: sampleAlive) (simp add: sdksFailWorld_def sampleWorld_def)
  have ids: "P_ID sampleProject = ''p1''" "S_ID sampleSdk = ''s1''"
    "fmtQuote sampleWorld = quotePlain"
    by (simp_all add: sampleProject_def sampleSdk_def sampleWorld_def)
  note a = C5_help_outcome [OF m1, of sampleWorld "[]" "[]" "[sampleProject]" False "[sampleSdk]" False "[]"]
  note b = C5_help_outcome [OF m2, of sdksFailWorld "[]" "[]" "[sampleProject]" False "[]" False
      "''Get /servers/0/sdks: 500''"]
  from a w1 l1 ids have r1:
    "fst (appAction noProjectConfig sampleWorld [] []) =
       ExitError (helpMsg quotePlain False [sampleProject] False [sampleSdk] False) 1"
    "sublist (projectLine sampleProject) (helpMsg quotePlain False [sampleProject] False [sampleSdk] False)"
    "sublist (sdkLine sampleSdk) (helpMsg quotePlain False [sampleProject] False [sampleSdk] False)"
    "suffix (exampleText quotePlain ''p1'' ''s1'') (helpMsg quotePlain False [sampleProject] False [sampleSdk] False)"
    "ioURL (snd (appAction noProjectConfig sampleWorld [] [])) = []"
    "posted (snd (appAction noProjectConfig sampleWorld [] [])) = []"
    by simp_all
  from b w2 have r2:
    "fst (appAction listingConfig sdksFailWorld [] []) = ExitError ''Get /servers/0/sdks: 500'' 1"
    by simp
  from m1 w1 r1 m2 w2 r2 show ?thesis
    by simp
qed

text \<open>The claim as it is written fails when the listing was asked for and the query of
  the SDKs fails: the code is 1, not 0, and the message is the error, not the help.\<close>

theorem C5_counterexample:
  "listProject listingConfig \<and>
   fst (appAction listingConfig sdksFailWorld [''make''] []) = ExitError ''Get /servers/0/sdks: 500'' 1"
  by code_simp

lemma helpMsg_explicit:
  "helpMsg q l ps ep sdks es =
     (if \<not> l then ''XDS_PROJECT_ID environment variable must be set !'' @ NL else []) @
     (if \<not> ep then projectsText ps else []) @
     (if \<not> es then sdksText sdks else []) @
     (if ps \<noteq> [] \<and> sdks \<noteq> [] then exampleText q (P_ID (hd ps)) (S_ID (hd sdks)) else [])"
  by (cases ps; cases sdks) (simp_all add: helpMsg_def)

lemma partialAlive: "agentAlive projectsPartialWorld"
  by (simp add: agentAlive_def projectsPartialWorld_def sampleWorld_def)

text \<open>
  Claim C7, as the code has it. In a session that gives the help, a payload of a listing
  call that does not decode is not fatal: whatever the decoding leaves in the two
  slices, the session returns the help with the code of the help (0 when the listing was
  asked for, 1 otherwise), and the error only makes the help poorer: the list whose
  payload did not decode is left out of it; the usage example is still there when the
  decoding has left at least one project and one SDK. A listing call whose request fails
  is fatal: the session returns the request's error with the code 1 and no help, and
  after a failed query of the projects it does not ask for the SDKs.
\<close>

theorem C7_listing_failures:
  "agentAlive w \<Longrightarrow> prjID cfg = [] \<or> listProject cfg \<Longrightarrow>
   (getProjects w = Inr (ps, ep) \<and> getSdks w = Inr (sdks, es) \<longrightarrow>
      fst (appAction cfg w argsCmd envm) =
        ExitError
          ((if \<not> listProject cfg
            then ''XDS_PROJECT_ID environment variable must be set !'' @ NL else []) @
           (if \<not> ep then projectsText ps else []) @
           (if \<not> es then sdksText sdks else []) @
           (if ps \<noteq> [] \<and> sdks \<noteq> []
            then exampleText (fmtQuote w) (P_ID (hd ps)) (S_ID (hd sdks)) else []))
          (if listProject cfg then 0 else 1)) \<and>
   (getProjects w = Inl e \<longrightarrow>
      fst (appAction cfg w argsCmd envm) = ExitError e 1 \<and>
      gets (snd (appAction cfg w argsCmd envm)) = [''/version'', ''/projects'']) \<and>
   (getProjects w = Inr (ps, ep) \<and> getSdks w = Inl e \<longrightarrow>
      fst (appAction cfg w argsCmd envm) = ExitError e 1)"
proof -
  assume alive: "agentAlive w" and mode: "prjID cfg = [] \<or> listProject cfg"
  have fail: "getProjects w = Inl e \<longrightarrow>
      fst (appAction cfg w argsCmd envm) = ExitError e 1 \<and>
      gets (snd (appAction cfg w argsCmd envm)) = [''/version'', ''/projects'']"
    using alive by (simp add: agentAlive_def appAction_def emptyTrace_def Let_def)
  have any: "getProjects w = Inr (ps, ep) \<and> getSdks w = Inr (sdks, es) \<longrightarrow>
      fst (appAction cfg w argsCmd envm) =
        ExitError
          ((if \<not> listProject cfg
            then ''XDS_PROJECT_ID environment variable must be set !'' @ NL else []) @
           (if \<not> ep then projectsText ps else []) @
           (if \<not> es then sdksText sdks else []) @
           (if ps \<noteq> [] \<and> sdks \<noteq> []
            then exampleText (fmtQuote w) (P_ID (hd ps)) (S_ID (hd sdks)) else []))
          (if listProject cfg then 0 else 1)"
  proof
    assume h: "getProjects w = Inr (ps, ep) \<and> getSdks w = Inr (sdks, es)"
    then have "getProjects w = Inr (ps, ep)" by simp
    from appAction_help [OF alive mode this, of argsCmd envm] h
    have "fst (appAction cfg w argsCmd envm) =
        ExitError (helpMsg (fmtQuote w) (listProject cfg) ps ep sdks es)
          (if listProject cfg then 0 else 1)"
      by simp
    then show "fst (appAction cfg w argsCmd envm) =
        ExitError
          ((if \<not> listProject cfg
            then ''XDS_PROJECT_ID environment variable must be set !'' @ NL else []) @
           (if \<not> ep then projectsText ps else []) @
           (if \<not> es then sdksText sdks else []) @
           (if ps \<noteq> [] \<and> sdks \<noteq> []
            then exampleText (fmtQuote w) (P_ID (hd ps)) (S_ID (hd sdks)) else []))
          (if listProject cfg then 0 else 1)"
      by (simp only: helpMsg_explicit)
  qed
  have failSdk: "getProjects w = Inr (ps, ep) \<and> getSdks w = Inl e \<longrightarrow>
      fst (appAction cfg w argsCmd envm) = ExitError e 1"
  proof
    assume h: "getProjects w = Inr (ps, ep) \<and> getSdks w = Inl e"
    then have "getProjects w = Inr (ps, ep)" by simp
    from appAction_help [OF alive mode this, of argsCmd envm] h
    show "fst (appAction cfg w argsCmd envm) = ExitError e 1"
      by simp
  qed
  from any fail failSdk show ?thesis
    by blast
qed

theorem C7_listing_failures_witness:
  "agentAlive projectsPartialWorld \<and> (prjID noProjectConfig = [] \<or> listProject noProjectConfig) \<and>
   getProjects projectsPartialWorld = Inr ([sampleProject], True) \<and>
   getSdks projectsPartialWorld = Inr ([sampleSdk], False) \<and>
   fst (appAction noProjectConfig projectsPartialWorld [] []) =
     ExitError (''XDS_PROJECT_ID environment variable must be set !'' @ NL @ sdksText [sampleSdk] @
                exampleText quotePlain ''p1'' ''s1'') 1 \<and>
   agentAlive sdksMalformedWorld \<and> (prjID listingConfig = [] \<or> listProject listingConfig) \<and>
   getProjects sdksMalformedWorld = Inr ([sampleProject], False) \<and>
   getSdks sdksMalformedWorld = Inr ([], True) \<and>
   fst (appAction listingConfig sdksMalformedWorld [] []) = ExitError (projectsText [sampleProject]) 0 \<and>
   agentAlive projectsFailWorld \<and> getProjects projectsFailWorld = Inl ''Get /projects: 500'' \<and>
   fst (appAction listingConfig projectsFailWorld [] []) = ExitError ''Get /projects: 500'' 1 \<and>
   agentAlive sdksFailWorld \<and> getProjects sdksFailWorld = Inr ([sampleProject], False) \<and>
   getSdks sdksFailWorld = Inl ''Get /servers/0/sdks: 500'' \<and>
   fst (appAction noProjectConfig sdksFailWorld [] []) = ExitError ''Get /servers/0/sdks: 500'' 1"
proof -
  have m1: "prjID noProjectConfig = [] \<or> listProject noProjectConfig"
    by (simp add: noProjectConfig_def)
  have l1: "listProject noProjectConfig = False"
    by (simp add: noProjectConfig_def sampleConfig_def)
  have m2: "prjID listingConfig = [] \<or> listProject listingConfig"
    by (simp add: listingConfig_def)
  have l2: "listProject listingConfig = True"
    by (simp add: listingConfig_def)
  have w1: "getProjects projectsPartialWorld = Inr ([sampleProject], True) \<and>
     getSdks projectsPartialWorld = Inr ([sampleSdk], False)"
    by (simp add: projectsPartialWorld_def sampleWorld_def)
  have q1: "fmtQuote projectsPartialWorld = quotePlain" "P_ID sampleProject = ''p1''"
    "S_ID sampleSdk = ''s1''"
    by (simp_all add: projectsPartialWorld_def sampleWorld_def sampleProject_def sampleSdk_def)
  have w2: "getProjects sdksMalformedWorld = Inr ([sampleProject], False) \<and>
     getSdks sdksMalformedWorld = Inr ([], True)"
    by (simp add: sdksMalformedWorld_def sampleWorld_def)
  have w3: "getProjects projectsFailWorld = Inl ''Get /projects: 500''"
    by (simp add: projectsFailWorld_def)
  have w4: "getProjects sdksFailWorld = Inr ([sampleProject], False) \<and>
     getSdks sdksFailWorld = Inl ''Get /servers/0/sdks: 500''"
    by (simp add: sdksFailWorld_def sampleWorld_def)
  note a = C7_listing_failures [OF partialAlive m1, of "[sampleProject]" True "[sampleSdk]" False
      "[]" "[]" "[]"]
  note b = C7_listing_failures [OF sampleAlive(5) m2, of "[sampleProject]" False "[]" True
      "[]" "[]" "[]"]
  note c = C7_listing_failures [OF sampleAlive(3) m2, of "[]" False "[]" False "[]" "[]"
      "''Get /projects: 500''"]
  note d = C7_listing_failures [OF sampleAlive(2) m1, of "[sampleProject]" False "[]" False "[]" "[]"
      "''Get /servers/0/sdks: 500''"]
  from a w1 have "fst (appAction noProjectConfig projectsPartialWorld [] []) =
     ExitError
       ((if \<not> listProject noProjectConfig
         then ''XDS_PROJECT_ID environment variable must be set !'' @ NL else []) @
        (if \<not> True then projectsText [sampleProject] else []) @
        (if \<not> False then sdksText [sampleSdk] else []) @
        (if [sampleProject] \<noteq> [] \<and> [sampleSdk] \<noteq> []
         then exampleText (fmtQuote projectsPartialWorld) (P_ID (hd [sampleProject]))
                (S_ID (hd [sampleSdk]))
         else []))
       (if listProject noProjectConfig then 0 else 1)"
    by blast
  with l1 q1 have r1: "fst (appAction noProjectConfig projectsPartialWorld [] []) =
     ExitError (''XDS_PROJECT_ID environment variable must be set !'' @ NL @ sdksText [sampleSdk] @
                exampleText quotePlain ''p1'' ''s1'') 1"
    by simp
  from b w2 have "fst (appAction listingConfig sdksMalformedWorld [] []) =
     ExitError
       ((if \<not> listProject listingConfig
         then ''XDS_PROJECT_ID environment variable must be set !'' @ NL else []) @
        (if \<not> False then projectsText [sampleProject] else []) @
        (if \<not> True then sdksText [] else []) @
        (if [sampleProject] \<noteq> [] \<and> [] \<noteq> ([] :: sdk list)
         then exampleText (fmtQuote sdksMalformedWorld) (P_ID (hd [sampleProject]))
                (S_ID (hd ([] :: sdk list)))
         else []))
       (if listProject listingConfig then 0 else 1)"
    by blast
  with l2 have r2: "fst (appAction listingConfig sdksMalformedWorld [] []) =
     ExitError (projectsText [sampleProject]) 0"
    by simp
  from c w3 have r3: "fst (appAction listingConfig projectsFailWorld [] []) =
     ExitError ''Get /projects: 500'' 1"
    by blast
  from d w4 have r4: "fst (appAction noProjectConfig sdksFailWorld [] []) =
     ExitError ''Get /servers/0/sdks: 500'' 1"
    by blast
  from partialAlive sampleAlive m1 m2 w1 w2 w3 w4 r1 r2 r3 r4 show ?thesis
    by simp
qed

text \<open>The claim as it is written fails for a listing call whose request fails: the
  session gives no help and returns the error with the code 1, here with the listing
  asked for, and the SDKs are not asked for. It fails too where it has the session fall
  back to an empty list: a decoding that fails after the first project leaves that
  project in the slice, and the usage example is made with it.\<close>

theorem C7_counterexample:
  "listProject listingConfig \<and>
   fst (appAction listingConfig projectsFailWorld [''make''] []) = ExitError ''Get /projects: 500'' 1 \<and>
   gets (snd (appAction listingConfig projectsFailWorld [''make''] [])) = [''/version'', ''/projects''] \<and>
   getProjects projectsPartialWorld = Inr ([sampleProject], True) \<and>
   fst (appAction noProjectConfig projectsPartialWorld [''make''] []) =
     ExitError (''XDS_PROJECT_ID environment variable must be set !'' @ NL @ sdksText [sampleSdk] @
                exampleText quotePlain ''p1'' ''s1'') 1"
proof -
  have a: "listProject listingConfig \<and>
     fst (appAction listingConfig projectsFailWorld [''make''] []) = ExitError ''Get /projects: 500'' 1 \<and>
     gets (snd (appAction listingConfig projectsFailWorld [''make''] [])) = [''/version'', ''/projects'']"
    by code_simp
  have b: "getProjects projectsPartialWorld = Inr ([sampleProject], True)"
    by (simp add: projectsPartialWorld_def)
  have c: "fst (appAction noProjectConfig projectsPartialWorld [''make''] []) =
     ExitError (''XDS_PROJECT_ID environment variable must be set !'' @ NL @ sdksText [sampleSdk] @
                exampleText quotePlain ''p1'' ''s1'') 1"
    by code_simp
  from a b c show ?thesis
    by blast
qed

subsection \<open>The split of the command line\<close>

lemma loadConf_keeps:
  "loadConf fs osArgs idx st = Inr st' \<Longrightarrow>
   args st' = args st \<and> argsCommand st' = argsCommand st \<and> found st' = found st"
  by (auto simp: loadConf_def Let_def split: if_splits confFile.splits option.splits)

lemma scanArgs_no_separator:
  "''--'' \<notin> snd ` set xs \<Longrightarrow> scanArgs fs osArgs xs st = Inr st' \<Longrightarrow>
   args st' = args st \<and> argsCommand st' = argsCommand st \<and> found st' = found st"
proof (induction xs arbitrary: st)
  case Nil
  then show ?case by simp
next
  case (Cons x xs)
  obtain idx a where x: "x = (idx, a)" by (cases x)
  from Cons.prems x have a: "a \<noteq> ''--''" and xs: "''--'' \<notin> snd ` set xs"
    by auto
  show ?case
  proof (cases "a = ''-c'' \<or> a = ''--config''")
    case True
    with Cons.prems(2) x a obtain st1 where
      l: "loadConf fs osArgs idx st = Inr st1" and s: "scanArgs fs osArgs xs st1 = Inr st'"
      by (cases "loadConf fs osArgs idx st") auto
    from Cons.IH [OF xs s] loadConf_keeps [OF l] show ?thesis
      by simp
  next
    case False
    with Cons.prems(2) x a have "scanArgs fs osArgs xs st = Inr st'"
      by simp
    from Cons.IH [OF xs this] show ?thesis .
  qed
qed

lemma scanArgs_plain:
  "set pre \<inter> {''-c'', ''--config'', ''--''} = {} \<Longrightarrow>
   scanArgs fs osArgs (enumerate i (pre @ rest)) st =
     scanArgs fs osArgs (enumerate (i + length pre) rest) st"
proof (induction pre arbitrary: i)
  case Nil
  show ?case by simp
next
  case (Cons a pre)
  then have "a \<noteq> ''-c''" "a \<noteq> ''--config''" "a \<noteq> ''--''"
    and "set pre \<inter> {''-c'', ''--config'', ''--''} = {}"
    by auto
  with Cons.IH [of "Suc i"] show ?case
    by simp
qed

lemma copy_slice_replicate:
  "copy_slice (replicate (length src + k) x) src = src @ replicate k x"
  by (simp add: copy_slice_def)

lemma copy_slice_Cons: "copy_slice (d # ds) (s # ss) = s # copy_slice ds ss"
  by (simp add: copy_slice_def)

text \<open>The split at the first separator, when no config file is named before it: both
  slices keep the length of the command line, the rest of each is empty strings.\<close>

lemma mainSplit_found:
  assumes "filepath_Base a0 \<noteq> AppNativeName"
    and "set pre \<inter> {''-c'', ''--config'', ''--''} = {}"
  shows "mainSplit fs env (a0 # pre @ ''--'' # post) =
     Inr \<lparr>confFile = [], penv = env, envMap = [],
          args = a0 # pre @ replicate (Suc (length post)) [],
          argsCommand = post @ replicate (length pre + 2) [], found = True\<rparr>"
proof -
  let ?osArgs = "a0 # pre @ ''--'' # post"
  let ?n = "length ?osArgs"
  let ?st0 = "\<lparr>confFile = [], penv = env, envMap = [],
               args = (replicate ?n [])[0 := a0], argsCommand = replicate ?n [],
               found = False\<rparr>"
  have scan: "scanArgs fs ?osArgs (enumerate 0 (pre @ ''--'' # post)) ?st0 =
      Inr (?st0\<lparr>args := copy_slice (args ?st0) (take (length pre + 1) ?osArgs),
               argsCommand := copy_slice (argsCommand ?st0) (drop (length pre + 2) ?osArgs),
               found := True\<rparr>)"
    using scanArgs_plain [OF assms(2), of fs ?osArgs 0 "''--'' # post" ?st0]
    by simp
  have n1: "(replicate ?n [])[0 := a0] = a0 # replicate (length pre + Suc (length post)) []"
    by simp
  have t: "take (length pre + 1) ?osArgs = a0 # pre"
    by simp
  have a: "copy_slice ((replicate ?n [])[0 := a0]) (take (length pre + 1) ?osArgs) =
      a0 # pre @ replicate (Suc (length post)) []"
    unfolding n1 t by (simp only: copy_slice_Cons copy_slice_replicate)
  have n2: "?n = length post + (length pre + 2)"
    by simp
  have d: "drop (length pre + 2) ?osArgs = post"
    by simp
  have c: "copy_slice (replicate ?n []) (drop (length pre + 2) ?osArgs) =
      post @ replicate (length pre + 2) []"
    unfolding n2 d by (rule copy_slice_replicate)
  have "mainSplit fs env ?osArgs =
      Inr (?st0\<lparr>args := copy_slice (args ?st0) (take (length pre + 1) ?osArgs),
               argsCommand := copy_slice (argsCommand ?st0) (drop (length pre + 2) ?osArgs),
               found := True\<rparr>)"
    using assms(1) scan by (simp add: mainSplit_def Let_def del: replicate_Suc)
  also have "\<dots> = Inr \<lparr>confFile = [], penv = env, envMap = [],
          args = a0 # pre @ replicate (Suc (length post)) [],
          argsCommand = post @ replicate (length pre + 2) [], found = True\<rparr>"
    using a c by (simp del: replicate_Suc length_Cons list_update_code)
  finally show ?thesis .
qed

text \<open>Without separator: the options are the whole command line, the native command is
  as many empty strings.\<close>

lemma mainSplit_not_found:
  assumes "filepath_Base a0 \<noteq> AppNativeName" and "''--'' \<notin> set rest"
    and "mainSplit fs env (a0 # rest) = Inr st"
  shows "args st = a0 # rest \<and> argsCommand st = replicate (Suc (length rest)) [] \<and> \<not> found st"
proof -
  let ?osArgs = "a0 # rest"
  let ?st0 = "\<lparr>confFile = [], penv = env, envMap = [],
               args = (replicate (length ?osArgs) [])[0 := a0],
               argsCommand = replicate (length ?osArgs) [], found = False\<rparr>"
  from assms(1,3) obtain st1 where
    scan: "scanArgs fs ?osArgs (enumerate 0 rest) ?st0 = Inr st1"
    and st: "st = (if \<not> found st1 then st1\<lparr>args := copy_slice (args st1) ?osArgs\<rparr> else st1)"
    by (auto simp: mainSplit_def Let_def split: sum.splits)
  have "''--'' \<notin> snd ` set (enumerate 0 rest)"
    using assms(2) by (auto simp: in_set_enumerate_eq)
  from scanArgs_no_separator [OF this scan]
  have k: "args st1 = args ?st0" "argsCommand st1 = argsCommand ?st0" "found st1 = found ?st0"
    by simp_all
  with st show ?thesis
    by (simp add: copy_slice_def)
qed

text \<open>
  Claim C2. For the command line \<^verbatim>\<open>xds-exec --id p1 -- make all\<close> the first separator is at
  index 3, so the options of the wrapper are to be the three tokens before it and the
  native command line the two tokens after it. The program gives six tokens for each:
  it makes both slices with the length of the whole command line and copies into them,
  so that empty strings follow the tokens; they go to the agent as arguments of
  \<^verbatim>\<open>make\<close>.
\<close>

theorem C2_split_padding:
  "mainSplit fs env [''xds-exec'', ''--id'', ''p1'', ''--'', ''make'', ''all''] =
     Inr \<lparr>confFile = [], penv = env, envMap = [],
          args = [''xds-exec'', ''--id'', ''p1'', [], [], []],
          argsCommand = [''make'', ''all'', [], [], [], []], found = True\<rparr> \<and>
   [''xds-exec'', ''--id'', ''p1'', [], [], []] \<noteq> take 3 [''xds-exec'', ''--id'', ''p1'', ''--'', ''make'', ''all''] \<and>
   [''make'', ''all'', [], [], [], []] \<noteq> drop 4 [''xds-exec'', ''--id'', ''p1'', ''--'', ''make'', ''all'']"
proof -
  have "filepath_Base ''xds-exec'' \<noteq> AppNativeName"
    by (simp add: filepath_Base_def AppNativeName_def)
  moreover have "set [''--id'', ''p1''] \<inter> {''-c'', ''--config'', ''--''} = {}"
    by simp
  ultimately show ?thesis
    using mainSplit_found [of "''xds-exec''" "[''--id'', ''p1'']" fs env "[''make'', ''all'']"]
    by (simp add: numeral_2_eq_2)
qed

lemma waitExit_result: "snd (waitExit ts es tr) = snd (waitExit ts es tr')"
  by (induction ts es tr arbitrary: tr' rule: waitExit.induct) simp_all

lemma posted_streaming:
  assumes "reachesStreaming cfg w (c # as)"
  shows "map (\<lambda>(p, r). (p, Cmd r, Args r)) (posted (snd (appAction cfg w (c # as) envm))) =
     [(execCommand, strings_Trim c '' '', as)]"
  using posted_appAction [of cfg w "c # as" envm] assms
  by (auto simp: reachesStreaming_def appAction_def execFlow_def emptyTrace_def Let_def
        split: sum.splits prod.splits option.splits dest!: waitExit_fieldsD)

lemma outcome_streaming:
  assumes "reachesStreaming cfg w argsCmd" and "argsCmd' \<noteq> []"
  shows "fst (appAction cfg w argsCmd envm) = fst (appAction cfg w argsCmd' envm)"
proof -
  from assms have r: "reachesStreaming cfg w argsCmd'"
    by (simp add: reachesStreaming_def)
  from appAction_streaming [OF assms(1), of envm] obtain tr where
    a: "appAction cfg w argsCmd envm =
      (case waitExit (withTimestamp cfg) (events w) tr of
         (tr3, None) \<Rightarrow> (Blocked, tr3) | (tr3, Some res) \<Rightarrow> (exitOutcome res, tr3))"
    by blast
  from appAction_streaming [OF r, of envm] obtain tr' where
    b: "appAction cfg w argsCmd' envm =
      (case waitExit (withTimestamp cfg) (events w) tr' of
         (tr3, None) \<Rightarrow> (Blocked, tr3) | (tr3, Some res) \<Rightarrow> (exitOutcome res, tr3))"
    by blast
  have "fst (appAction cfg w argsCmd envm) =
      (case snd (waitExit (withTimestamp cfg) (events w) tr) of
         None \<Rightarrow> Blocked | Some res \<Rightarrow> exitOutcome res)"
    by (simp add: a split: prod.splits option.splits)
  moreover have "fst (appAction cfg w argsCmd' envm) =
      (case snd (waitExit (withTimestamp cfg) (events w) tr') of
         None \<Rightarrow> Blocked | Some res \<Rightarrow> exitOutcome res)"
    by (simp add: b split: prod.splits option.splits)
  ultimately show ?thesis
    using waitExit_result [of "withTimestamp cfg" "events w" tr tr'] by simp
qed

lemma help_ignores_command:
  "prjID cfg = [] \<or> listProject cfg \<Longrightarrow>
   appAction cfg w argsCmd envm = appAction cfg w argsCmd' envm"
  by (auto simp: appAction_def Let_def split: option.splits sum.splits)

text \<open>
  Claim C6, as the code has it. The session does not check the native command. Once the
  project ID is there, no listing is asked for and the calls to the agent succeed, it
  posts one exec request, whose command is the first token of the native command without
  the spaces around it and whose arguments are the tokens that follow, also when that
  command is empty; and it ends as it would with any other native command, so that an
  empty native command is no configuration error. With an empty project ID or the
  listing asked for, the session gives the help whatever the native command is.
\<close>

theorem C6_no_native_command:
  "(reachesStreaming cfg w (c # as) \<longrightarrow>
      map (\<lambda>(p, r). (p, Cmd r, Args r)) (posted (snd (appAction cfg w (c # as) envm))) =
        [(execCommand, strings_Trim c '' '', as)] \<and>
      fst (appAction cfg w (c # as) envm) = fst (appAction cfg w (c' # as') envm)) \<and>
   (reachesStreaming cfg w ([] # as) \<longrightarrow>
      map (\<lambda>(p, r). (p, Cmd r, Args r)) (posted (snd (appAction cfg w ([] # as) envm))) =
        [(execCommand, [], as)]) \<and>
   (prjID cfg = [] \<or> listProject cfg \<longrightarrow>
      appAction cfg w argsCmd envm = appAction cfg w argsCmd' envm)"
proof -
  have "strings_Trim [] '' '' = []"
    by (simp add: strings_Trim_def)
  then have "reachesStreaming cfg w ([] # as) \<longrightarrow>
      map (\<lambda>(p, r). (p, Cmd r, Args r)) (posted (snd (appAction cfg w ([] # as) envm))) =
        [(execCommand, [], as)]"
    using posted_streaming [of cfg w "[]" as envm] by simp
  moreover have "reachesStreaming cfg w (c # as) \<longrightarrow>
      map (\<lambda>(p, r). (p, Cmd r, Args r)) (posted (snd (appAction cfg w (c # as) envm))) =
        [(execCommand, strings_Trim c '' '', as)]"
    using posted_streaming [of cfg w c as envm] by blast
  moreover have "reachesStreaming cfg w (c # as) \<longrightarrow>
      fst (appAction cfg w (c # as) envm) = fst (appAction cfg w (c' # as') envm)"
    using outcome_streaming [of cfg w "c # as" "c' # as'" envm] by simp
  moreover have "prjID cfg = [] \<or> listProject cfg \<longrightarrow>
      appAction cfg w argsCmd envm = appAction cfg w argsCmd' envm"
    using help_ignores_command [of cfg w argsCmd envm argsCmd'] by blast
  ultimately show ?thesis
    by blast
qed

lemma sampleNoSeparator:
  "mainSplit noFiles Map.empty [''xds-exec'', ''--id'', ''p1''] =
     Inr \<lparr>confFile = [], penv = Map.empty, envMap = [],
          args = [''xds-exec'', ''--id'', ''p1''], argsCommand = [[], [], []], found = False\<rparr>"
  by (simp add: mainSplit_def Let_def filepath_Base_def AppNativeName_def copy_slice_def)

theorem C6_no_native_command_witness:
  "reachesStreaming sampleConfig sampleWorld ([] # [[], []]) \<and>
   map (\<lambda>(p, r). (p, Cmd r, Args r))
     (posted (snd (appAction sampleConfig sampleWorld ([] # [[], []]) []))) =
     [(execCommand, [], [[], []])] \<and>
   reachesStreaming sampleConfig sampleWorld (''  make '' # [''all'']) \<and>
   map (\<lambda>(p, r). (p, Cmd r, Args r))
     (posted (snd (appAction sampleConfig sampleWorld (''  make '' # [''all'']) []))) =
     [(execCommand, ''make'', [''all''])] \<and>
   fst (appAction sampleConfig sampleWorld ([] # [[], []]) []) =
     fst (appAction sampleConfig sampleWorld (''make'' # [''all'']) []) \<and>
   (prjID listingConfig = [] \<or> listProject listingConfig) \<and>
   appAction listingConfig sampleWorld [[], [], []] [] =
     appAction listingConfig sampleWorld [''make'', ''all''] []"
proof -
  have h1: "reachesStreaming sampleConfig sampleWorld ([] # [[], []])"
    using sampleReaches by (simp add: reachesStreaming_def)
  have h2: "reachesStreaming sampleConfig sampleWorld (''  make '' # [''all''])"
    using sampleReaches by (simp add: reachesStreaming_def)
  have h3: "prjID listingConfig = [] \<or> listProject listingConfig"
    by (simp add: listingConfig_def)
  have t: "strings_Trim ''  make '' '' '' = ''make''"
    by (simp add: strings_Trim_def)
  note a = C6_no_native_command [of sampleConfig sampleWorld "[]" "[[], []]" "[]" "''make''"
      "[''all'']" "[]" "[]"]
  note b = C6_no_native_command [of sampleConfig sampleWorld "''  make ''" "[''all'']" "[]" "''make''"
      "[''all'']" "[]" "[]"]
  note c = C6_no_native_command [of listingConfig sampleWorld "[]" "[]" "[]" "[]" "[]"
      "[[], [], []]" "[''make'', ''all'']"]
  from a h1 have r1:
    "map (\<lambda>(p, r). (p, Cmd r, Args r))
       (posted (snd (appAction sampleConfig sampleWorld ([] # [[], []]) []))) =
       [(execCommand, [], [[], []])]"
    "fst (appAction sampleConfig sampleWorld ([] # [[], []]) []) =
       fst (appAction sampleConfig sampleWorld (''make'' # [''all'']) [])"
    by blast+
  from b h2 have "map (\<lambda>(p, r). (p, Cmd r, Args r))
       (posted (snd (appAction sampleConfig sampleWorld (''  make '' # [''all'']) []))) =
       [(execCommand, strings_Trim ''  make '' '' '', [''all''])]"
    by blast
  with t have r2: "map (\<lambda>(p, r). (p, Cmd r, Args r))
       (posted (snd (appAction sampleConfig sampleWorld (''  make '' # [''all'']) []))) =
       [(execCommand, ''make'', [''all''])]"
    by simp
  from c h3 have r3: "appAction listingConfig sampleWorld [[], [], []] [] =
     appAction listingConfig sampleWorld [''make'', ''all''] []"
    by blast
  from h1 h2 h3 r1 r2 r3 show ?thesis
    by blast
qed

text \<open>The claim as it is written fails for the command line \<^verbatim>\<open>xds-exec --id p1\<close>: the
  session posts an exec request with the empty command and ends with the code of the
  exit event, not with a configuration error.\<close>

theorem C6_counterexample:
  "map_sum id argsCommand (mainSplit noFiles Map.empty [''xds-exec'', ''--id'', ''p1'']) =
     Inr [[], [], []] \<and>
   fst (appAction sampleConfig sampleWorld [[], [], []] []) = ExitError [] 0 \<and>
   map fst (posted (snd (appAction sampleConfig sampleWorld [[], [], []] []))) = [''/exec''] \<and>
   map (Cmd \<circ> snd) (posted (snd (appAction sampleConfig sampleWorld [[], [], []] []))) = [[]] \<and>
   map (Args \<circ> snd) (posted (snd (appAction sampleConfig sampleWorld [[], [], []] []))) = [[[], []]]"
proof -
  have "appAction sampleConfig sampleWorld [[], [], []] [] =
     (ExitError [] 0,
      \<lparr>written = [(Stdout, ''out1''), (Stderr, ''err1'')],
       httpURL = [''http://localhost:8000''], ioURL = [''http://localhost:8000''],
       gets = [''/version'', ''/projects''],
       posted = [(''/exec'', \<lparr>ID = ''p1'', SdkID = ''s1'', Cmd = [], Args = [[], []],
                   Env = [], RPath = ''src'', CmdTimeout = 60\<rparr>)]\<rparr>)"
    by code_simp
  then show ?thesis
    by (simp add: sampleNoSeparator)
qed

subsection \<open>The precedence of the sources of a parameter\<close>

lemma godotenv_Overload_lookup:
  "distinct (map fst kvs) \<Longrightarrow>
   godotenv_Overload env kvs k = (case map_of kvs k of Some v \<Rightarrow> Some v | None \<Rightarrow> env k)"
proof (induction kvs arbitrary: env)
  case Nil
  show ?case by (simp add: godotenv_Overload_def)
next
  case (Cons kv kvs)
  obtain a b where kv: "kv = (a, b)" by (cases kv)
  from Cons.prems kv have d: "distinct (map fst kvs)" and a: "map_of kvs a = None"
    by (auto simp: map_of_eq_None_iff)
  have "godotenv_Overload env (kv # kvs) k = godotenv_Overload (env(a \<mapsto> b)) kvs k"
    by (simp add: godotenv_Overload_def kv)
  also have "\<dots> = (case map_of kvs k of Some v \<Rightarrow> Some v | None \<Rightarrow> (env(a \<mapsto> b)) k)"
    by (rule Cons.IH [OF d])
  finally show ?case
    using a by (simp add: kv split: option.splits)
qed

text \<open>Tokens behind the first separator are not looked at: a \<^verbatim>\<open>-c\<close> among the arguments
  of the native command sources no file.\<close>

lemma scanArgs_no_config:
  "set (takeWhile (\<lambda>a. a \<noteq> ''--'') xs) \<inter> {''-c'', ''--config''} = {} \<Longrightarrow>
   \<exists>st'. scanArgs fs osArgs (enumerate i xs) st = Inr st' \<and>
     penv st' = penv st \<and> envMap st' = envMap st"
proof (induction xs arbitrary: i st)
  case Nil
  show ?case by simp
next
  case (Cons a xs)
  show ?case
  proof (cases "a = ''--''")
    case True
    then show ?thesis by simp
  next
    case False
    with Cons.prems have a: "a \<noteq> ''-c''" "a \<noteq> ''--config''"
      and xs: "set (takeWhile (\<lambda>a. a \<noteq> ''--'') xs) \<inter> {''-c'', ''--config''} = {}"
      by auto
    from Cons.IH [OF xs, of "Suc i" st] a False show ?thesis
      by simp
  qed
qed

lemma mainSplit_no_config:
  assumes "filepath_Base a0 = AppNativeName \<or>
    set (takeWhile (\<lambda>a. a \<noteq> ''--'') rest) \<inter> {''-c'', ''--config''} = {}"
  shows "\<exists>st. mainSplit fs env (a0 # rest) = Inr st \<and> penv st = env \<and> envMap st = []"
proof (cases "filepath_Base a0 = AppNativeName")
  case True
  then show ?thesis
    by (simp add: mainSplit_def Let_def)
next
  case False
  let ?osArgs = "a0 # rest"
  let ?st0 = "\<lparr>confFile = [], penv = env, envMap = [],
               args = (replicate (length ?osArgs) [])[0 := a0],
               argsCommand = replicate (length ?osArgs) [], found = False\<rparr>"
  from False assms
  have "set (takeWhile (\<lambda>a. a \<noteq> ''--'') rest) \<inter> {''-c'', ''--config''} = {}"
    by blast
  from scanArgs_no_config [OF this, of fs ?osArgs 0 ?st0] obtain st1 where
    "scanArgs fs ?osArgs (enumerate 0 rest) ?st0 = Inr st1" "penv st1 = env" "envMap st1 = []"
    by auto
  with False show ?thesis
    by (simp add: mainSplit_def Let_def)
qed

lemma mainSplit_config:
  assumes "filepath_Base a0 \<noteq> AppNativeName" and "tok = ''-c'' \<or> tok = ''--config''"
    and "set pre \<inter> {''-c'', ''--config'', ''--''} = {}"
    and "f \<notin> {[], ''-c'', ''--config'', ''--''}"
    and "set (takeWhile (\<lambda>a. a \<noteq> ''--'') post) \<inter> {''-c'', ''--config''} = {}"
    and "fs f = Present (Some kvs) (Some m)"
  shows "\<exists>st. mainSplit fs env (a0 # pre @ tok # f # post) = Inr st \<and>
     penv st = godotenv_Overload env kvs \<and> envMap st = m"
proof -
  let ?osArgs = "a0 # pre @ tok # f # post"
  let ?st0 = "\<lparr>confFile = [], penv = env, envMap = [],
               args = (replicate (length ?osArgs) [])[0 := a0],
               argsCommand = replicate (length ?osArgs) [], found = False\<rparr>"
  let ?st1 = "?st0\<lparr>confFile := f, penv := godotenv_Overload env kvs, envMap := m\<rparr>"
  have nth: "(pre @ tok # f # post) ! Suc (length pre) = f"
    by (simp add: nth_append)
  have load: "loadConf fs ?osArgs (length pre) ?st0 = Inr ?st1"
    using assms(4,6) by (simp add: loadConf_def Let_def nth)
  have tok: "tok \<noteq> ''--''"
    using assms(2) by auto
  have "scanArgs fs ?osArgs (enumerate 0 (pre @ tok # f # post)) ?st0 =
      scanArgs fs ?osArgs (enumerate (length pre) (tok # f # post)) ?st0"
    using scanArgs_plain [OF assms(3), of fs ?osArgs 0 "tok # f # post" ?st0] by simp
  also have "\<dots> = scanArgs fs ?osArgs (enumerate (Suc (length pre)) (f # post)) ?st1"
    using assms(2) tok load by (simp del: replicate_Suc length_Cons)
  also have "\<dots> = scanArgs fs ?osArgs (enumerate (Suc (Suc (length pre))) post) ?st1"
    using assms(4) by (simp del: replicate_Suc length_Cons)
  finally have scan: "scanArgs fs ?osArgs (enumerate 0 (pre @ tok # f # post)) ?st0 =
      scanArgs fs ?osArgs (enumerate (Suc (Suc (length pre))) post) ?st1" .
  from scanArgs_no_config [OF assms(5), of fs ?osArgs "Suc (Suc (length pre))" ?st1]
  obtain st2 where
    "scanArgs fs ?osArgs (enumerate (Suc (Suc (length pre))) post) ?st1 = Inr st2"
    "penv st2 = godotenv_Overload env kvs" "envMap st2 = m"
    by auto
  with assms(1) scan show ?thesis
    by (simp add: mainSplit_def Let_def del: replicate_Suc length_Cons)
qed
lemma flagValue_overlay:
  assumes "distinct (map fst kvs)" and "map_of kvs var \<noteq> Some []"
  shows "flagValue (godotenv_Overload env kvs) given var dflt =
     firstNonEmpty [Some given, map_of kvs var, env var] dflt"
proof (cases "map_of kvs var")
  case None
  then show ?thesis
    by (cases "env var")
      (simp_all add: flagValue_def godotenv_Overload_lookup [OF assms(1)])
next
  case (Some v)
  with assms(2) have "v \<noteq> []" by simp
  with Some show ?thesis
    by (simp add: flagValue_def godotenv_Overload_lookup [OF assms(1)])
qed

lemma flagValue_plain:
  "flagValue env given var dflt = firstNonEmpty [Some given, env var] dflt"
  by (cases "env var") (simp_all add: flagValue_def)

text \<open>
  Claim C3, as the code has it. A parameter has the value \<open>given\<close> that the command line
  gives its flag (empty when the flag is not given), its variable \<open>var\<close> and its built-in
  default \<open>dflt\<close>; the statement holds for every variable and default, so for each flag
  that the application declares. When a config file is sourced (it is named by \<^verbatim>\<open>-c\<close> or
  \<^verbatim>\<open>--config\<close> before the separator, and the wrapper does not run under the native name)
  and does not give the variable the empty value, the value chosen is the first that is
  not empty of the flag's value, the file's value and the environment's value, and the
  default when there is none. When no file is sourced (no such flag stands before the
  separator, as in \<^verbatim>\<open>xds-exec -- gcc -c x.c\<close>, or the wrapper runs under the native name)
  it is the first that is not empty of the flag's value and the environment's value,
  and the default when there is none. A flag's value that is not empty is chosen
  whatever the file and the environment give, also where the file gives the variable
  the empty value; what is chosen there without such a flag is left open.
\<close>

theorem C3_precedence:
  "filepath_Base a0 \<noteq> AppNativeName \<and> (tok = ''-c'' \<or> tok = ''--config'') \<and>
   set pre \<inter> {''-c'', ''--config'', ''--''} = {} \<and>
   f \<notin> {[], ''-c'', ''--config'', ''--''} \<and>
   set (takeWhile (\<lambda>a. a \<noteq> ''--'') post) \<inter> {''-c'', ''--config''} = {} \<and>
   fs f = Present (Some kvs) (Some m) \<and> distinct (map fst kvs) \<Longrightarrow>
   filepath_Base a1 = AppNativeName \<or>
   set (takeWhile (\<lambda>a. a \<noteq> ''--'') rest) \<inter> {''-c'', ''--config''} = {} \<Longrightarrow>
   (case mainSplit fs env (a0 # pre @ tok # f # post) of
      Inl e \<Rightarrow> False
    | Inr st \<Rightarrow>
        envMap st = m \<and>
        (map_of kvs var \<noteq> Some [] \<longrightarrow>
           flagValue (penv st) given var dflt =
             firstNonEmpty [Some given, map_of kvs var, env var] dflt) \<and>
        (given \<noteq> [] \<longrightarrow> flagValue (penv st) given var dflt = given)) \<and>
   (case mainSplit fs env (a1 # rest) of
      Inl e \<Rightarrow> False
    | Inr st \<Rightarrow>
        flagValue (penv st) given var dflt = firstNonEmpty [Some given, env var] dflt)"
proof -
  assume shape: "filepath_Base a0 \<noteq> AppNativeName \<and> (tok = ''-c'' \<or> tok = ''--config'') \<and>
      set pre \<inter> {''-c'', ''--config'', ''--''} = {} \<and>
      f \<notin> {[], ''-c'', ''--config'', ''--''} \<and>
      set (takeWhile (\<lambda>a. a \<noteq> ''--'') post) \<inter> {''-c'', ''--config''} = {} \<and>
      fs f = Present (Some kvs) (Some m) \<and> distinct (map fst kvs)"
    and rest: "filepath_Base a1 = AppNativeName \<or>
      set (takeWhile (\<lambda>a. a \<noteq> ''--'') rest) \<inter> {''-c'', ''--config''} = {}"
  note s0 = shape [THEN conjunct1]
  note s1 = shape [THEN conjunct2, THEN conjunct1]
  note s2 = shape [THEN conjunct2, THEN conjunct2, THEN conjunct1]
  note s3 = shape [THEN conjunct2, THEN conjunct2, THEN conjunct2, THEN conjunct1]
  note s4 = shape [THEN conjunct2, THEN conjunct2, THEN conjunct2, THEN conjunct2, THEN conjunct1]
  note s5 = shape [THEN conjunct2, THEN conjunct2, THEN conjunct2, THEN conjunct2, THEN conjunct2,
      THEN conjunct1]
  note d = shape [THEN conjunct2, THEN conjunct2, THEN conjunct2, THEN conjunct2, THEN conjunct2,
      THEN conjunct2]
  from mainSplit_config [where fs = fs and f = f and env = env, OF s0 s1 s2 s3 s4 s5]
  obtain st where
    st: "mainSplit fs env (a0 # pre @ tok # f # post) = Inr st"
      "penv st = godotenv_Overload env kvs" "envMap st = m"
    by (elim exE conjE)
  from mainSplit_no_config [OF rest, of fs env] obtain st' where
    st': "mainSplit fs env (a1 # rest) = Inr st'" "penv st' = env"
    by (elim exE conjE)
  have over: "map_of kvs var \<noteq> Some [] \<longrightarrow>
      flagValue (godotenv_Overload env kvs) given var dflt =
        firstNonEmpty [Some given, map_of kvs var, env var] dflt"
    using flagValue_overlay [OF d, of var env given dflt] by blast
  have flag: "given \<noteq> [] \<longrightarrow> flagValue (godotenv_Overload env kvs) given var dflt = given"
    by (simp add: flagValue_def)
  have plain: "flagValue env given var dflt = firstNonEmpty [Some given, env var] dflt"
    by (rule flagValue_plain)
  show ?thesis
    unfolding st(1) st'(1) sum.case st(2) st(3) st'(2)
    using over flag plain by (intro conjI) simp_all
qed

lemma sampleSplit:
  "mainSplit sampleFiles sampleEnv [''xds-exec'', ''-c'', ''xds.env'', ''--'', ''make''] =
     Inr \<lparr>confFile = ''xds.env'',
          penv = godotenv_Overload sampleEnv [(''XDS_SDK_ID'', ''s2''), (''XDS_RPATH'', [])],
          envMap = [(''XDS_SDK_ID'', ''s2''), (''XDS_RPATH'', [])],
          args = [''xds-exec'', ''-c'', ''xds.env'', [], []],
          argsCommand = [''make'', [], [], [], []], found = True\<rparr>"
  by (simp add: mainSplit_def Let_def filepath_Base_def AppNativeName_def copy_slice_def
        loadConf_def sampleFiles_def)

lemma sampleOverlay:
  "godotenv_Overload sampleEnv [(''XDS_SDK_ID'', ''s2''), (''XDS_RPATH'', [])] ''XDS_SDK_ID'' = Some ''s2''"
  "godotenv_Overload sampleEnv [(''XDS_SDK_ID'', ''s2''), (''XDS_RPATH'', [])] ''XDS_RPATH'' = Some []"
  "godotenv_Overload sampleEnv [(''XDS_SDK_ID'', ''s2''), (''XDS_RPATH'', [])] ''XDS_PROJECT_ID'' = Some ''p1''"
  by (simp_all add: godotenv_Overload_def sampleEnv_def)

theorem C3_precedence_witness:
  "(filepath_Base ''xds-exec'' \<noteq> AppNativeName \<and> (''-c'' = ''-c'' \<or> ''-c'' = ''--config'') \<and>
    set [] \<inter> {''-c'', ''--config'', ''--''} = {} \<and>
    ''xds.env'' \<notin> {[], ''-c'', ''--config'', ''--''} \<and>
    set (takeWhile (\<lambda>a. a \<noteq> ''--'') [''--'', ''gcc'', ''-c'', ''x.c'']) \<inter> {''-c'', ''--config''} = {} \<and>
    sampleFiles ''xds.env'' =
      Present (Some [(''XDS_SDK_ID'', ''s2''), (''XDS_RPATH'', [])])
              (Some [(''XDS_SDK_ID'', ''s2''), (''XDS_RPATH'', [])]) \<and>
    distinct (map fst [(''XDS_SDK_ID'', ''s2''), (''XDS_RPATH'', [])])) \<and>
   set (takeWhile (\<lambda>a. a \<noteq> ''--'') [''--'', ''gcc'', ''-c'', ''x.c'']) \<inter> {''-c'', ''--config''} = {} \<and>
   filepath_Base ''/usr/bin/exec'' = AppNativeName \<and>
   map_of [(''XDS_SDK_ID'', ''s2''), (''XDS_RPATH'', [])] ''XDS_SDK_ID'' \<noteq> Some [] \<and>
   map_of [(''XDS_SDK_ID'', ''s2''), (''XDS_RPATH'', [])] ''XDS_PROJECT_ID'' \<noteq> Some [] \<and>
   ''s3'' \<noteq> [] \<and>
   flagValue (penv (projr (mainSplit sampleFiles sampleEnv
      [''xds-exec'', ''-c'', ''xds.env'', ''--'', ''gcc'', ''-c'', ''x.c'']))) [] ''XDS_SDK_ID'' [] = ''s2'' \<and>
   flagValue (penv (projr (mainSplit sampleFiles sampleEnv
      [''xds-exec'', ''-c'', ''xds.env'', ''--'', ''gcc'', ''-c'', ''x.c'']))) [] ''XDS_PROJECT_ID'' [] = ''p1'' \<and>
   flagValue (penv (projr (mainSplit sampleFiles sampleEnv
      [''xds-exec'', ''-c'', ''xds.env'', ''--'', ''gcc'', ''-c'', ''x.c'']))) ''s3'' ''XDS_RPATH'' [] = ''s3'' \<and>
   flagValue (penv (projr (mainSplit sampleFiles sampleEnv
      [''xds-exec'', ''--'', ''gcc'', ''-c'', ''x.c'']))) [] ''XDS_SDK_ID'' [] = ''s1'' \<and>
   flagValue (penv (projr (mainSplit sampleFiles sampleEnv
      [''/usr/bin/exec'', ''gcc'', ''-c'', ''x.c'']))) [] ''XDS_SDK_ID'' [] = ''s1''"
proof -
  let ?kvs = "[(''XDS_SDK_ID'', ''s2''), (''XDS_RPATH'', [])]"
  let ?post = "[''--'', ''gcc'', ''-c'', ''x.c'']"
  have h1: "filepath_Base ''xds-exec'' \<noteq> AppNativeName \<and> (''-c'' = ''-c'' \<or> ''-c'' = ''--config'') \<and>
    set [] \<inter> {''-c'', ''--config'', ''--''} = {} \<and>
    ''xds.env'' \<notin> {[], ''-c'', ''--config'', ''--''} \<and>
    set (takeWhile (\<lambda>a. a \<noteq> ''--'') ?post) \<inter> {''-c'', ''--config''} = {} \<and>
    sampleFiles ''xds.env'' = Present (Some ?kvs) (Some ?kvs) \<and> distinct (map fst ?kvs)"
    by (simp add: sampleFiles_def filepath_Base_def AppNativeName_def)
  have h2: "set (takeWhile (\<lambda>a. a \<noteq> ''--'') ?post) \<inter> {''-c'', ''--config''} = {}"
    by simp
  have h3: "filepath_Base ''/usr/bin/exec'' = AppNativeName"
    by (simp add: filepath_Base_def AppNativeName_def)
  have f1: "map_of ?kvs ''XDS_SDK_ID'' \<noteq> Some []" "map_of ?kvs ''XDS_PROJECT_ID'' \<noteq> Some []"
    "map_of ?kvs ''XDS_SDK_ID'' = Some ''s2''" "map_of ?kvs ''XDS_PROJECT_ID'' = None"
    by simp_all
  have g: "''s3'' \<noteq> []"
    by simp
  have e: "sampleEnv ''XDS_SDK_ID'' = Some ''s1''" "sampleEnv ''XDS_PROJECT_ID'' = Some ''p1''"
    by (simp_all add: sampleEnv_def)
  note a = C3_precedence [where ?a0.0 = "''xds-exec''" and tok = "''-c''" and pre = "[]"
      and f = "''xds.env''" and post = ?post and fs = sampleFiles and kvs = ?kvs and m = ?kvs
      and ?a1.0 = "''xds-exec''" and rest = ?post and env = sampleEnv
      and var = "''XDS_SDK_ID''" and given = "[]" and dflt = "[]", OF h1 disjI2 [OF h2]]
  note b = C3_precedence [where ?a0.0 = "''xds-exec''" and tok = "''-c''" and pre = "[]"
      and f = "''xds.env''" and post = ?post and fs = sampleFiles and kvs = ?kvs and m = ?kvs
      and ?a1.0 = "''/usr/bin/exec''" and rest = "[''gcc'', ''-c'', ''x.c'']" and env = sampleEnv
      and var = "''XDS_SDK_ID''" and given = "[]" and dflt = "[]", OF h1 disjI1 [OF h3]]
  note c = C3_precedence [where ?a0.0 = "''xds-exec''" and tok = "''-c''" and pre = "[]"
      and f = "''xds.env''" and post = ?post and fs = sampleFiles and kvs = ?kvs and m = ?kvs
      and ?a1.0 = "''xds-exec''" and rest = ?post and env = sampleEnv
      and var = "''XDS_PROJECT_ID''" and given = "[]" and dflt = "[]", OF h1 disjI2 [OF h2]]
  note d = C3_precedence [where ?a0.0 = "''xds-exec''" and tok = "''-c''" and pre = "[]"
      and f = "''xds.env''" and post = ?post and fs = sampleFiles and kvs = ?kvs and m = ?kvs
      and ?a1.0 = "''xds-exec''" and rest = ?post and env = sampleEnv
      and var = "''XDS_RPATH''" and given = "''s3''" and dflt = "[]", OF h1 disjI2 [OF h2]]
  from a f1 e have r1: "flagValue (penv (projr (mainSplit sampleFiles sampleEnv
      [''xds-exec'', ''-c'', ''xds.env'', ''--'', ''gcc'', ''-c'', ''x.c'']))) [] ''XDS_SDK_ID'' [] = ''s2''"
    and r4: "flagValue (penv (projr (mainSplit sampleFiles sampleEnv
      [''xds-exec'', ''--'', ''gcc'', ''-c'', ''x.c'']))) [] ''XDS_SDK_ID'' [] = ''s1''"
    by (auto split: sum.splits)
  from c f1 e have r2: "flagValue (penv (projr (mainSplit sampleFiles sampleEnv
      [''xds-exec'', ''-c'', ''xds.env'', ''--'', ''gcc'', ''-c'', ''x.c'']))) [] ''XDS_PROJECT_ID'' [] = ''p1''"
    by (auto split: sum.splits)
  from d g have r3: "flagValue (penv (projr (mainSplit sampleFiles sampleEnv
      [''xds-exec'', ''-c'', ''xds.env'', ''--'', ''gcc'', ''-c'', ''x.c'']))) ''s3'' ''XDS_RPATH'' [] = ''s3''"
    by (auto split: sum.splits)
  from b e have r5: "flagValue (penv (projr (mainSplit sampleFiles sampleEnv
      [''/usr/bin/exec'', ''gcc'', ''-c'', ''x.c'']))) [] ''XDS_SDK_ID'' [] = ''s1''"
    by (auto split: sum.splits)
  from h1 h2 h3 f1(1,2) g r1 r2 r3 r4 r5 show ?thesis
    by blast
qed

text \<open>The claim as it is written fails where the config file gives a parameter the empty
  value and the environment gives it a value: the file's empty value has replaced the
  environment's, so that the default is chosen, not the environment's value, which is
  the source of highest precedence with a value that is not empty.\<close>

theorem C3_counterexample:
  "sampleEnv ''XDS_RPATH'' = Some ''sub'' \<and>
   (''rpath'', ''XDS_RPATH'', []) \<in> set (stringFlags appFlags) \<and>
   \<not> isl (mainSplit sampleFiles sampleEnv [''xds-exec'', ''-c'', ''xds.env'', ''--'', ''make'']) \<and>
   flagValue (penv (projr (mainSplit sampleFiles sampleEnv
      [''xds-exec'', ''-c'', ''xds.env'', ''--'', ''make'']))) [] ''XDS_RPATH'' [] = [] \<and>
   flagValue (penv (projr (mainSplit sampleFiles sampleEnv
      [''xds-exec'', ''-c'', ''xds.env'', ''--'', ''make'']))) [] ''XDS_RPATH'' [] \<noteq> ''sub''"
  by (simp add: sampleSplit sampleOverlay flagValue_def)
    (simp add: sampleEnv_def appFlags_def)

end
